theory Spec2Isabelle
  imports Complex_Main "HOL-Library.Monad_Syntax" "HOL-Library.Sublist"
begin

section \<open>Numbers and optional fields\<close>

text \<open>
  The simulation lives in \<^verbatim>\<open>src/ground-station/src/utils/uavSimulation.js\<close>.
  JavaScript numbers are modelled as mathematical reals: rounding, \<^verbatim>\<open>NaN\<close> and the
  infinities of IEEE doubles are outside the model. A field that may be \<^verbatim>\<open>undefined\<close>
  is an \<open>option\<close>. The operator \<^verbatim>\<open>x || d\<close> on a number takes \<open>d\<close> when \<open>x\<close> is
  \<^verbatim>\<open>undefined\<close> or \<open>0\<close>; on an array or an object it takes \<open>d\<close> only when \<open>x\<close> is
  \<^verbatim>\<open>undefined\<close>.
\<close>

definition num_or :: "real option \<Rightarrow> real \<Rightarrow> real" where
  "num_or x d = (case x of None \<Rightarrow> d | Some v \<Rightarrow> if v = 0 then d else v)"

definition list_or_empty :: "'a list option \<Rightarrow> 'a list" where
  "list_or_empty x = (case x of None \<Rightarrow> [] | Some xs \<Rightarrow> xs)"

text \<open>\<^verbatim>\<open>xs.slice(-n)\<close>: the last \<open>n\<close> elements.\<close>

definition slice_last :: "nat \<Rightarrow> 'a list \<Rightarrow> 'a list" where
  "slice_last n xs = drop (length xs - n) xs"

text \<open>\<^verbatim>\<open>x % y\<close> on numbers: the remainder takes the sign of the dividend.\<close>

definition js_rem :: "real \<Rightarrow> real \<Rightarrow> real" where
  "js_rem x y =
     (let q = x / y
      in x - y * of_int (if 0 \<le> q then \<lfloor>q\<rfloor> else \<lceil>q\<rceil>))"

text \<open>\<^verbatim>\<open>Math.atan2(y, x)\<close>, the angle of the point \<open>(x, y)\<close> in \<open>(-\<pi>, \<pi>]\<close>.\<close>

definition atan2 :: "real \<Rightarrow> real \<Rightarrow> real" where
  "atan2 y x =
     (if 0 < x then arctan (y / x)
      else if x < 0 then (if 0 \<le> y then arctan (y / x) + pi else arctan (y / x) - pi)
      else if 0 < y then pi / 2
      else if y < 0 then - (pi / 2)
      else 0)"

section \<open>Geodesy\<close>

record position =
  lat :: real
  lng :: real

text \<open>\<^verbatim>\<open>calculateNewPosition\<close> (lines 6-20).\<close>

definition calculateNewPosition :: "position \<Rightarrow> real \<Rightarrow> real \<Rightarrow> real \<Rightarrow> position" where
  "calculateNewPosition currentPos direction speed deltaTime =
     (let radians = (direction * pi) / 180;
          distanceDegrees = (speed * deltaTime) / 111000
      in \<lparr> lat = lat currentPos + distanceDegrees * cos radians,
           lng = lng currentPos
                 + distanceDegrees * sin radians / cos (lat currentPos * pi / 180) \<rparr>)"

text \<open>\<^verbatim>\<open>calculateDistance\<close> (lines 25-39), the haversine formula.\<close>

definition calculateDistance :: "position \<Rightarrow> position \<Rightarrow> real" where
  "calculateDistance pos1 pos2 =
     (let R = 6371000;
          lat1 = lat pos1 * pi / 180;
          lat2 = lat pos2 * pi / 180;
          deltaLat = (lat pos2 - lat pos1) * pi / 180;
          deltaLng = (lng pos2 - lng pos1) * pi / 180;
          a = sin (deltaLat / 2) * sin (deltaLat / 2)
              + cos lat1 * cos lat2 * sin (deltaLng / 2) * sin (deltaLng / 2);
          c = 2 * atan2 (sqrt a) (sqrt (1 - a))
      in R * c)"

text \<open>\<^verbatim>\<open>calculateBearing\<close> (lines 44-56).\<close>

definition calculateBearing :: "position \<Rightarrow> position \<Rightarrow> real" where
  "calculateBearing pos1 pos2 =
     (let lat1 = lat pos1 * pi / 180;
          lat2 = lat pos2 * pi / 180;
          deltaLng = (lng pos2 - lng pos1) * pi / 180;
          y = sin deltaLng * cos lat2;
          x = cos lat1 * sin lat2 - sin lat1 * cos lat2 * cos deltaLng;
          bearing = atan2 y x * 180 / pi
      in js_rem (bearing + 360) 360)"

section \<open>Coverage footprint\<close>

text \<open>
  \<^verbatim>\<open>getCoverageRadius\<close> (lines 372-377): \<^verbatim>\<open>altitude * 0.5 || 25\<close>. The fallback \<open>25\<close> is
  taken only when the product is \<open>0\<close>.
\<close>

definition getCoverageRadius :: "real \<Rightarrow> real" where
  "getCoverageRadius altitude = (if altitude * 0.5 = 0 then 25 else altitude * 0.5)"

text \<open>
  The footprint radius in the words of the design document (section 4.2):
  \<open>max(altitude * 0.5, 25)\<close>.
\<close>

definition footprintRadius :: "real \<Rightarrow> real" where
  "footprintRadius altitude = max (altitude * 0.5) 25"

section \<open>Vehicles and routes\<close>

datatype uav_status = Idle | Searching | Returning | Offline | OtherStatus string

text \<open>
  A coverage sample is either the current format \<^verbatim>\<open>{position, altitude}\<close> or the older
  bare \<^verbatim>\<open>{lat, lng}\<close>; line 252 reads both.
\<close>

datatype coverage_point = Sample position real | Legacy position

fun sample_position :: "coverage_point \<Rightarrow> position" where
  "sample_position (Sample p a) = p"
| "sample_position (Legacy p) = p"

record uav =
  uid :: nat
  isOnline :: bool
  isMock :: bool
  status :: uav_status
  position :: position
  direction :: real
  speed :: real
  altitude :: real
  battery :: real
  targetSpeed :: "real option"
  targetAltitude :: "real option"
  currentWaypointIndex :: "nat option"
  startPosition :: "position option"
  flightPath :: "position list option"
  coveragePoints :: "coverage_point list option"
  altitudeHistory :: "real list option"
  altitudeHistorySampleCounter :: "nat option"

record search_area =
  area_id :: nat
  bounds :: "position list option"
  area_status :: string
  assignedUAV :: "nat option"

section \<open>The tick function\<close>

text \<open>
  \<^verbatim>\<open>updateUAVState\<close> (lines 138-349) builds \<^verbatim>\<open>updatedUAV = { ...uav }\<close> and assigns to
  its fields; the model threads the updated record through the same assignments, in the
  source's order, and reads from the argument \<open>uav\<close> wherever the source reads \<^verbatim>\<open>uav\<close>.
  The \<^verbatim>\<open>console.log\<close> calls have no effect on the result and are left out.
\<close>

text \<open>Lines 154-183: speed from the target, altitude set at once or ramped at 2 m/s.\<close>

definition init_or_ramp :: "'a uav_scheme \<Rightarrow> real \<Rightarrow> 'a uav_scheme" where
  "init_or_ramp uav deltaTime =
     (let targetSpeedMs = num_or (targetSpeed uav) 50 / 3.6;
          targetAltitude = num_or (targetAltitude uav) 80
      in case currentWaypointIndex uav of
           None \<Rightarrow>
             uav\<lparr> currentWaypointIndex := Some 0,
                  speed := targetSpeedMs,
                  altitude := targetAltitude \<rparr>
         | Some i \<Rightarrow>
             (let currentAltitude = num_or (Some (altitude uav)) targetAltitude;
                  altitudeDifference = targetAltitude - currentAltitude;
                  climbRate = 2
              in uav\<lparr> currentWaypointIndex := Some i,
                      speed := targetSpeedMs,
                      altitude :=
                        (if \<bar>altitudeDifference\<bar> < climbRate * deltaTime then targetAltitude
                         else if 0 < altitudeDifference
                           then currentAltitude + climbRate * deltaTime
                         else currentAltitude - climbRate * deltaTime) \<rparr>))"

text \<open>The index held by the updated vehicle after lines 158-183.\<close>

definition current_index :: "'a uav_scheme \<Rightarrow> nat" where
  "current_index uav = (case currentWaypointIndex uav of None \<Rightarrow> 0 | Some i \<Rightarrow> i)"

text \<open>
  Lines 202-218: within 20 m of the target the index advances and nothing else changes;
  otherwise the vehicle turns to the target and moves.
\<close>

definition advance_or_move ::
  "'a uav_scheme \<Rightarrow> 'a uav_scheme \<Rightarrow> position \<Rightarrow> real \<Rightarrow> 'a uav_scheme" where
  "advance_or_move uav updatedUAV targetWaypoint deltaTime =
     (let distance = calculateDistance (position uav) targetWaypoint
      in if distance < 20
         then updatedUAV\<lparr> currentWaypointIndex := Some (current_index updatedUAV + 1) \<rparr>
         else
           (let dir = calculateBearing (position uav) targetWaypoint
            in updatedUAV\<lparr> direction := dir,
                           position :=
                             calculateNewPosition (position uav) dir
                               (num_or (Some (speed updatedUAV)) 15) deltaTime \<rparr>))"

text \<open>Lines 221-224 and 313-316: the flight path keeps its last 100 positions.\<close>

definition push_flightPath :: "'a uav_scheme \<Rightarrow> 'a uav_scheme \<Rightarrow> 'a uav_scheme" where
  "push_flightPath uav updatedUAV =
     (let fp = list_or_empty (flightPath uav) @ [position updatedUAV]
      in updatedUAV\<lparr> flightPath :=
           Some (if length fp > 100 then slice_last 100 fp else fp) \<rparr>)"

text \<open>
  Lines 228-241 and 319-332: the sample counter and the altitude history. The test
  \<^verbatim>\<open>!uav.altitudeHistorySampleCounter\<close> holds for \<^verbatim>\<open>undefined\<close> and for \<open>0\<close>.
\<close>

definition next_counter :: "nat option \<Rightarrow> nat" where
  "next_counter c = (case c of None \<Rightarrow> 0 | Some n \<Rightarrow> if n = 0 then 0 else n + 1)"

definition track_altitude :: "'a uav_scheme \<Rightarrow> 'a uav_scheme \<Rightarrow> 'a uav_scheme" where
  "track_altitude uav updatedUAV =
     (let counter = next_counter (altitudeHistorySampleCounter uav);
          u = updatedUAV\<lparr> altitudeHistorySampleCounter := Some counter \<rparr>
      in if counter mod 5 = 0
         then
           (let h = list_or_empty (altitudeHistory uav) @ [altitude u]
            in u\<lparr> altitudeHistory := Some (if length h > 8 then slice_last 8 h else h) \<rparr>)
         else u\<lparr> altitudeHistory := Some (list_or_empty (altitudeHistory uav)) \<rparr>)"

text \<open>
  Lines 245-272: once the first waypoint is passed, a coverage sample is pushed when
  there is none yet or the last one is at least 70% of the rectangle width away.
\<close>

definition coverage_spacing :: "real \<Rightarrow> real" where
  "coverage_spacing alt =
     (let coverageRadius = getCoverageRadius alt;
          rectangleWidth = coverageRadius * 2
      in rectangleWidth * 0.7)"

definition shouldAddCoveragePoint :: "'a uav_scheme \<Rightarrow> bool" where
  "shouldAddCoveragePoint updatedUAV =
     (let cps = list_or_empty (coveragePoints updatedUAV);
          spacing = coverage_spacing (altitude updatedUAV)
      in case cps of
           [] \<Rightarrow> True
         | _ \<Rightarrow> calculateDistance (position updatedUAV) (sample_position (last cps))
                 \<ge> spacing)"

definition track_coverage :: "'a uav_scheme \<Rightarrow> 'a uav_scheme" where
  "track_coverage updatedUAV =
     (if current_index updatedUAV > 0
      then
        (if shouldAddCoveragePoint updatedUAV
         then updatedUAV\<lparr> coveragePoints :=
                Some (list_or_empty (coveragePoints updatedUAV)
                      @ [Sample (position updatedUAV) (altitude updatedUAV)]) \<rparr>
         else updatedUAV)
      else updatedUAV)"

text \<open>Lines 152-285: the branch for a searching vehicle with a route.\<close>

definition searching_tick ::
  "'a uav_scheme \<Rightarrow> 'b search_area_scheme \<Rightarrow> real \<Rightarrow> 'a uav_scheme" where
  "searching_tick uav searchArea deltaTime =
     (let u1 = init_or_ramp uav deltaTime;
          waypoints = list_or_empty (bounds searchArea);
          u2 = u1\<lparr> coveragePoints := Some (list_or_empty (coveragePoints uav)) \<rparr>
      in if length waypoints > 0 \<and> current_index u2 < length waypoints
         then
           (let targetWaypoint = waypoints ! current_index u2;
                u3 = advance_or_move uav u2 targetWaypoint deltaTime;
                u4 = push_flightPath uav u3;
                u5 = track_altitude uav u4;
                u6 = track_coverage u5;
                u7 = u6\<lparr> battery := max 0 (battery uav - 0.1 * deltaTime) \<rparr>
            in if current_index u7 \<ge> length waypoints
               then u7\<lparr> status := Returning \<rparr>
               else u7)
         else u2)"

text \<open>Lines 286-341: the branch for a returning vehicle.\<close>

definition returning_tick :: "'a uav_scheme \<Rightarrow> real \<Rightarrow> 'a uav_scheme" where
  "returning_tick uav deltaTime =
     (case startPosition uav of
        Some start \<Rightarrow>
          (let distance = calculateDistance (position uav) start;
               u1 =
                 (if distance < 20
                  then uav\<lparr> status := Idle, speed := 0, altitude := 0, position := start \<rparr>
                  else
                    (let returnSpeedMs = (num_or (targetSpeed uav) 50 / 3.6) * 1.5;
                         dir = calculateBearing (position uav) start;
                         u2 = uav\<lparr> direction := dir,
                                   speed := returnSpeedMs,
                                   altitude :=
                                     num_or (Some (altitude uav))
                                       (num_or (targetAltitude uav) 80) \<rparr>;
                         u3 = u2\<lparr> position :=
                                 calculateNewPosition (position uav) (direction u2)
                                   (speed u2) deltaTime \<rparr>;
                         u4 = push_flightPath uav u3
                     in track_altitude uav u4))
           in u1\<lparr> battery := max 0 (battery uav - 0.08 * deltaTime) \<rparr>)
      | None \<Rightarrow> uav\<lparr> status := Idle, speed := 0 \<rparr>)"

text \<open>
  \<^verbatim>\<open>updateUAVState\<close>. The route argument is \<open>None\<close> when the caller found no assigned
  route (\<^verbatim>\<open>undefined\<close>).
\<close>

definition updateUAVState ::
  "'a uav_scheme \<Rightarrow> 'b search_area_scheme option \<Rightarrow> real \<Rightarrow> 'a uav_scheme" where
  "updateUAVState uav searchArea deltaTime =
     (if \<not> isOnline uav \<or> status uav = Offline then uav
      else if \<not> isMock uav then uav
      else if status uav = Searching \<and> searchArea \<noteq> None
        then (case searchArea of
                Some area \<Rightarrow> searching_tick uav area deltaTime
              | None \<Rightarrow> uav)
      else if status uav = Returning then returning_tick uav deltaTime
      else if status uav = Idle
        then uav\<lparr> speed := 0, battery := max 0 (battery uav - 0.01 * deltaTime) \<rparr>
      else uav)"

section \<open>The tick function on a store\<close>

text \<open>
  The value model above cannot say which objects a tick writes to. Here the objects of
  the program live in a store, a list of objects addressed by their index, and every
  field that holds an object or an array in the source holds an address. A new object
  is appended to the store. Every read names the kind of object the source expects at
  the address; a read that finds none, or another kind, ends the tick with \<open>None\<close>
  (where the source reads a property of \<^verbatim>\<open>undefined\<close> it throws a \<^verbatim>\<open>TypeError\<close>). The
  steps are those of the value model, each with the reads and writes of its lines of
  the source, in their order.
\<close>

type_synonym addr = nat

record uav_cell =
  c_uid :: nat
  c_isOnline :: bool
  c_isMock :: bool
  c_status :: uav_status
  c_position :: addr
  c_direction :: real
  c_speed :: real
  c_altitude :: real
  c_battery :: real
  c_targetSpeed :: "real option"
  c_targetAltitude :: "real option"
  c_currentWaypointIndex :: "nat option"
  c_startPosition :: "addr option"
  c_flightPath :: "addr option"
  c_coveragePoints :: "addr option"
  c_altitudeHistory :: "addr option"
  c_altitudeHistorySampleCounter :: "nat option"

record area_cell =
  c_area_id :: nat
  c_bounds :: "addr option"
  c_area_status :: string
  c_assignedUAV :: "nat option"

datatype hobj =
    Position position
  | Coverage addr real
  | Refs "addr list"
  | Nums "real list"
  | Vehicle uav_cell
  | Area area_cell

type_synonym store = "hobj list"

definition alloc :: "store \<Rightarrow> hobj \<Rightarrow> store \<times> addr" where
  "alloc h obj = (h @ [obj], length h)"

definition lookup :: "store \<Rightarrow> addr \<Rightarrow> hobj option" where
  "lookup h a = (if a < length h then Some (h ! a) else None)"

definition get_vehicle :: "store \<Rightarrow> addr \<Rightarrow> uav_cell option" where
  "get_vehicle h a = (case lookup h a of Some (Vehicle c) \<Rightarrow> Some c | _ \<Rightarrow> None)"

definition get_area :: "store \<Rightarrow> addr \<Rightarrow> area_cell option" where
  "get_area h a = (case lookup h a of Some (Area c) \<Rightarrow> Some c | _ \<Rightarrow> None)"

definition get_position :: "store \<Rightarrow> addr \<Rightarrow> position option" where
  "get_position h a = (case lookup h a of Some (Position p) \<Rightarrow> Some p | _ \<Rightarrow> None)"

definition get_refs :: "store \<Rightarrow> addr \<Rightarrow> addr list option" where
  "get_refs h a = (case lookup h a of Some (Refs xs) \<Rightarrow> Some xs | _ \<Rightarrow> None)"

definition get_nums :: "store \<Rightarrow> addr \<Rightarrow> real list option" where
  "get_nums h a = (case lookup h a of Some (Nums xs) \<Rightarrow> Some xs | _ \<Rightarrow> None)"

text \<open>\<^verbatim>\<open>x || []\<close> on a field that holds an array of objects, or of numbers.\<close>

definition refs_or_empty :: "store \<Rightarrow> addr option \<Rightarrow> addr list option" where
  "refs_or_empty h x = (case x of None \<Rightarrow> Some [] | Some a \<Rightarrow> get_refs h a)"

definition nums_or_empty :: "store \<Rightarrow> addr option \<Rightarrow> real list option" where
  "nums_or_empty h x = (case x of None \<Rightarrow> Some [] | Some a \<Rightarrow> get_nums h a)"

text \<open>An assignment to fields of the vehicle object at an address.\<close>

definition set_vehicle :: "store \<Rightarrow> addr \<Rightarrow> (uav_cell \<Rightarrow> uav_cell) \<Rightarrow> store option" where
  "set_vehicle h a f =
     (case lookup h a of Some (Vehicle c) \<Rightarrow> Some (h[a := Vehicle (f c)]) | _ \<Rightarrow> None)"

text \<open>\<^verbatim>\<open>xs.push(x)\<close> on the array at an address: the array object itself changes.\<close>

definition push_ref :: "store \<Rightarrow> addr \<Rightarrow> addr \<Rightarrow> store option" where
  "push_ref h a x =
     (case lookup h a of Some (Refs xs) \<Rightarrow> Some (h[a := Refs (xs @ [x])]) | _ \<Rightarrow> None)"

definition cell_index :: "uav_cell \<Rightarrow> nat" where
  "cell_index c = (case c_currentWaypointIndex c of None \<Rightarrow> 0 | Some i \<Rightarrow> i)"

text \<open>Lines 154-183.\<close>

definition init_or_ramp_store :: "store \<Rightarrow> addr \<Rightarrow> addr \<Rightarrow> real \<Rightarrow> store option" where
  "init_or_ramp_store h uav updatedUAV deltaTime =
     do {
       u \<leftarrow> get_vehicle h uav;
       let targetSpeedMs = num_or (c_targetSpeed u) 50 / 3.6;
       let targetAltitude = num_or (c_targetAltitude u) 80;
       case c_currentWaypointIndex u of
         None \<Rightarrow>
           set_vehicle h updatedUAV
             (\<lambda>c. c\<lparr> c_currentWaypointIndex := Some 0,
                     c_speed := targetSpeedMs,
                     c_altitude := targetAltitude \<rparr>)
       | Some i \<Rightarrow>
           (let currentAltitude = num_or (Some (c_altitude u)) targetAltitude;
                altitudeDifference = targetAltitude - currentAltitude;
                climbRate = 2
            in set_vehicle h updatedUAV
                 (\<lambda>c. c\<lparr> c_currentWaypointIndex := Some i,
                         c_speed := targetSpeedMs,
                         c_altitude :=
                           (if \<bar>altitudeDifference\<bar> < climbRate * deltaTime
                              then targetAltitude
                            else if 0 < altitudeDifference
                              then currentAltitude + climbRate * deltaTime
                            else currentAltitude - climbRate * deltaTime) \<rparr>))
     }"

text \<open>
  Lines 192-196: \<^verbatim>\<open>updatedUAV.coveragePoints\<close> becomes a new array, empty or a copy of
  the elements of \<^verbatim>\<open>uav.coveragePoints\<close>.
\<close>

definition copy_coveragePoints :: "store \<Rightarrow> addr \<Rightarrow> addr \<Rightarrow> store option" where
  "copy_coveragePoints h uav updatedUAV =
     do {
       u \<leftarrow> get_vehicle h uav;
       xs \<leftarrow> refs_or_empty h (c_coveragePoints u);
       let (h1, cps) = alloc h (Refs xs);
       set_vehicle h1 updatedUAV (\<lambda>c. c\<lparr> c_coveragePoints := Some cps \<rparr>)
     }"

text \<open>Lines 200-218; \<^verbatim>\<open>calculateNewPosition\<close> returns a new object.\<close>

definition advance_or_move_store ::
  "store \<Rightarrow> addr \<Rightarrow> addr \<Rightarrow> addr \<Rightarrow> real \<Rightarrow> store option" where
  "advance_or_move_store h uav updatedUAV targetWaypoint deltaTime =
     do {
       u \<leftarrow> get_vehicle h uav;
       pos \<leftarrow> get_position h (c_position u);
       target \<leftarrow> get_position h targetWaypoint;
       let distance = calculateDistance pos target;
       if distance < 20
       then set_vehicle h updatedUAV
              (\<lambda>c. c\<lparr> c_currentWaypointIndex := Some (cell_index c + 1) \<rparr>)
       else do {
         h1 \<leftarrow> set_vehicle h updatedUAV
                 (\<lambda>c. c\<lparr> c_direction := calculateBearing pos target \<rparr>);
         up \<leftarrow> get_vehicle h1 updatedUAV;
         let (h2, newPos) =
               alloc h1 (Position (calculateNewPosition pos (c_direction up)
                                     (num_or (Some (c_speed up)) 15) deltaTime));
         set_vehicle h2 updatedUAV (\<lambda>c. c\<lparr> c_position := newPos \<rparr>)
       }
     }"

text \<open>Lines 221-224 and 313-316; the spread and \<^verbatim>\<open>slice\<close> each make a new array.\<close>

definition push_flightPath_store :: "store \<Rightarrow> addr \<Rightarrow> addr \<Rightarrow> store option" where
  "push_flightPath_store h uav updatedUAV =
     do {
       u \<leftarrow> get_vehicle h uav;
       up \<leftarrow> get_vehicle h updatedUAV;
       old \<leftarrow> refs_or_empty h (c_flightPath u);
       let (h1, fp) = alloc h (Refs (old @ [c_position up]));
       h2 \<leftarrow> set_vehicle h1 updatedUAV (\<lambda>c. c\<lparr> c_flightPath := Some fp \<rparr>);
       cur \<leftarrow> get_refs h2 fp;
       if length cur > 100
       then (let (h3, fp') = alloc h2 (Refs (slice_last 100 cur))
             in set_vehicle h3 updatedUAV (\<lambda>c. c\<lparr> c_flightPath := Some fp' \<rparr>))
       else Some h2
     }"

text \<open>Lines 228-241 and 319-332.\<close>

definition track_altitude_store :: "store \<Rightarrow> addr \<Rightarrow> addr \<Rightarrow> store option" where
  "track_altitude_store h uav updatedUAV =
     do {
       u \<leftarrow> get_vehicle h uav;
       h1 \<leftarrow> set_vehicle h updatedUAV
               (\<lambda>c. c\<lparr> c_altitudeHistorySampleCounter :=
                         Some (next_counter (c_altitudeHistorySampleCounter u)) \<rparr>);
       up \<leftarrow> get_vehicle h1 updatedUAV;
       if next_counter (c_altitudeHistorySampleCounter u) mod 5 = 0
       then do {
         old \<leftarrow> nums_or_empty h1 (c_altitudeHistory u);
         let (h2, ah) = alloc h1 (Nums (old @ [c_altitude up]));
         h3 \<leftarrow> set_vehicle h2 updatedUAV (\<lambda>c. c\<lparr> c_altitudeHistory := Some ah \<rparr>);
         cur \<leftarrow> get_nums h3 ah;
         if length cur > 8
         then (let (h4, ah') = alloc h3 (Nums (slice_last 8 cur))
               in set_vehicle h4 updatedUAV (\<lambda>c. c\<lparr> c_altitudeHistory := Some ah' \<rparr>))
         else Some h3
       }
       else
         (case c_altitudeHistory u of
            Some a \<Rightarrow> set_vehicle h1 updatedUAV (\<lambda>c. c\<lparr> c_altitudeHistory := Some a \<rparr>)
          | None \<Rightarrow>
              (let (h2, ah) = alloc h1 (Nums [])
               in set_vehicle h2 updatedUAV (\<lambda>c. c\<lparr> c_altitudeHistory := Some ah \<rparr>)))
     }"

text \<open>
  Lines 245-272. The last sample is read through \<^verbatim>\<open>updatedUAV.coveragePoints\<close>, and the
  new sample is pushed onto that same array.
\<close>

definition last_sample_position :: "store \<Rightarrow> addr list \<Rightarrow> addr option option" where
  "last_sample_position h cps =
     (if length cps > 0
      then (case lookup h (last cps) of
              Some (Coverage p a) \<Rightarrow> Some (Some p)
            | Some (Position p) \<Rightarrow> Some (Some (last cps))
            | _ \<Rightarrow> None)
      else Some None)"

definition track_coverage_store :: "store \<Rightarrow> addr \<Rightarrow> store option" where
  "track_coverage_store h updatedUAV =
     do {
       up \<leftarrow> get_vehicle h updatedUAV;
       if cell_index up > 0
       then do {
         cpa \<leftarrow> c_coveragePoints up;
         cps \<leftarrow> get_refs h cpa;
         lastPosition \<leftarrow> last_sample_position h cps;
         let spacing = coverage_spacing (c_altitude up);
         pos \<leftarrow> get_position h (c_position up);
         shouldAdd \<leftarrow>
           (case lastPosition of
              None \<Rightarrow> Some True
            | Some lp \<Rightarrow>
                do { l \<leftarrow> get_position h lp; Some (calculateDistance pos l \<ge> spacing) });
         if shouldAdd
         then (let (h1, p) = alloc h (Position pos);
                   (h2, sample) = alloc h1 (Coverage p (c_altitude up))
               in push_ref h2 cpa sample)
         else Some h
       }
       else Some h
     }"

text \<open>Lines 152-285.\<close>

definition searching_store ::
  "store \<Rightarrow> addr \<Rightarrow> addr \<Rightarrow> addr \<Rightarrow> real \<Rightarrow> store option" where
  "searching_store h uav updatedUAV searchArea deltaTime =
     do {
       h1 \<leftarrow> init_or_ramp_store h uav updatedUAV deltaTime;
       area \<leftarrow> get_area h1 searchArea;
       waypoints \<leftarrow> refs_or_empty h1 (c_bounds area);
       h2 \<leftarrow> copy_coveragePoints h1 uav updatedUAV;
       up \<leftarrow> get_vehicle h2 updatedUAV;
       if length waypoints > 0 \<and> cell_index up < length waypoints
       then do {
         h3 \<leftarrow> advance_or_move_store h2 uav updatedUAV (waypoints ! cell_index up) deltaTime;
         h4 \<leftarrow> push_flightPath_store h3 uav updatedUAV;
         h5 \<leftarrow> track_altitude_store h4 uav updatedUAV;
         h6 \<leftarrow> track_coverage_store h5 updatedUAV;
         u \<leftarrow> get_vehicle h6 uav;
         h7 \<leftarrow> set_vehicle h6 updatedUAV
                 (\<lambda>c. c\<lparr> c_battery := max 0 (c_battery u - 0.1 * deltaTime) \<rparr>);
         up' \<leftarrow> get_vehicle h7 updatedUAV;
         if cell_index up' \<ge> length waypoints
         then set_vehicle h7 updatedUAV (\<lambda>c. c\<lparr> c_status := Returning \<rparr>)
         else Some h7
       }
       else Some h2
     }"

text \<open>Lines 286-341.\<close>

definition returning_store :: "store \<Rightarrow> addr \<Rightarrow> addr \<Rightarrow> real \<Rightarrow> store option" where
  "returning_store h uav updatedUAV deltaTime =
     do {
       u \<leftarrow> get_vehicle h uav;
       case c_startPosition u of
         Some startPos \<Rightarrow>
           do {
             pos \<leftarrow> get_position h (c_position u);
             start \<leftarrow> get_position h startPos;
             let distance = calculateDistance pos start;
             h1 \<leftarrow>
               (if distance < 20
                then set_vehicle h updatedUAV
                       (\<lambda>c. c\<lparr> c_status := Idle, c_speed := 0, c_altitude := 0,
                               c_position := startPos \<rparr>)
                else do {
                  let returnSpeedMs = (num_or (c_targetSpeed u) 50 / 3.6) * 1.5;
                  h2 \<leftarrow> set_vehicle h updatedUAV
                          (\<lambda>c. c\<lparr> c_direction := calculateBearing pos start,
                                  c_speed := returnSpeedMs,
                                  c_altitude :=
                                    num_or (Some (c_altitude u))
                                      (num_or (c_targetAltitude u) 80) \<rparr>);
                  up \<leftarrow> get_vehicle h2 updatedUAV;
                  let (h3, newPos) =
                        alloc h2 (Position (calculateNewPosition pos (c_direction up)
                                              (c_speed up) deltaTime));
                  h4 \<leftarrow> set_vehicle h3 updatedUAV (\<lambda>c. c\<lparr> c_position := newPos \<rparr>);
                  h5 \<leftarrow> push_flightPath_store h4 uav updatedUAV;
                  track_altitude_store h5 uav updatedUAV
                });
             u' \<leftarrow> get_vehicle h1 uav;
             set_vehicle h1 updatedUAV
               (\<lambda>c. c\<lparr> c_battery := max 0 (c_battery u' - 0.08 * deltaTime) \<rparr>)
           }
       | None \<Rightarrow>
           set_vehicle h updatedUAV (\<lambda>c. c\<lparr> c_status := Idle, c_speed := 0 \<rparr>)
     }"

text \<open>
  \<^verbatim>\<open>updateUAVState\<close> on the store: the arguments are the addresses of the vehicle and
  of the route; the result is the store after the tick and the address of the returned
  vehicle, the copy made by \<^verbatim>\<open>{ ...uav }\<close> at line 139.
\<close>

definition updateUAVState_store ::
  "store \<Rightarrow> addr \<Rightarrow> addr option \<Rightarrow> real \<Rightarrow> (store \<times> addr) option" where
  "updateUAVState_store h uav searchArea deltaTime =
     do {
       u \<leftarrow> get_vehicle h uav;
       let (h0, updatedUAV) = alloc h (Vehicle u);
       if \<not> c_isOnline u \<or> c_status u = Offline then Some (h0, updatedUAV)
       else if \<not> c_isMock u then Some (h0, updatedUAV)
       else if c_status u = Searching \<and> searchArea \<noteq> None
         then (case searchArea of
                 Some area \<Rightarrow>
                   do { h1 \<leftarrow> searching_store h0 uav updatedUAV area deltaTime;
                        Some (h1, updatedUAV) }
               | None \<Rightarrow> Some (h0, updatedUAV))
       else if c_status u = Returning
         then do { h1 \<leftarrow> returning_store h0 uav updatedUAV deltaTime;
                   Some (h1, updatedUAV) }
       else if c_status u = Idle
         then do { h1 \<leftarrow> set_vehicle h0 updatedUAV (\<lambda>c. c\<lparr> c_speed := 0 \<rparr>);
                   u' \<leftarrow> get_vehicle h1 uav;
                   h2 \<leftarrow> set_vehicle h1 updatedUAV
                           (\<lambda>c. c\<lparr> c_battery := max 0 (c_battery u' - 0.01 * deltaTime) \<rparr>);
                   Some (h2, updatedUAV) }
       else Some (h0, updatedUAV)
     }"

section \<open>Reading values back from the store\<close>

text \<open>
  An object graph of the store, read back as a value of the value model: every address
  is replaced by what it points to. A read fails with \<open>None\<close> when an address does
  not hold the kind of object expected there.
\<close>

fun read_positions :: "store \<Rightarrow> addr list \<Rightarrow> position list option" where
  "read_positions h [] = Some []"
| "read_positions h (a # as) =
     do { p \<leftarrow> get_position h a; ps \<leftarrow> read_positions h as; Some (p # ps) }"

definition read_path :: "store \<Rightarrow> addr \<Rightarrow> position list option" where
  "read_path h a = do { xs \<leftarrow> get_refs h a; read_positions h xs }"

text \<open>A coverage array may hold samples in either format.\<close>

definition read_sample :: "store \<Rightarrow> addr \<Rightarrow> coverage_point option" where
  "read_sample h a =
     (case lookup h a of
        Some (Coverage p alt) \<Rightarrow> map_option (\<lambda>q. Sample q alt) (get_position h p)
      | Some (Position q) \<Rightarrow> Some (Legacy q)
      | _ \<Rightarrow> None)"

fun read_samples :: "store \<Rightarrow> addr list \<Rightarrow> coverage_point list option" where
  "read_samples h [] = Some []"
| "read_samples h (a # as) =
     do { s \<leftarrow> read_sample h a; ss \<leftarrow> read_samples h as; Some (s # ss) }"

definition read_coverage :: "store \<Rightarrow> addr \<Rightarrow> coverage_point list option" where
  "read_coverage h a = do { xs \<leftarrow> get_refs h a; read_samples h xs }"

text \<open>A field that may be \<^verbatim>\<open>undefined\<close>: nothing to read, or the object at its address.\<close>

definition read_opt :: "(addr \<Rightarrow> 'a option) \<Rightarrow> addr option \<Rightarrow> 'a option option" where
  "read_opt rd x = (case x of None \<Rightarrow> Some None | Some a \<Rightarrow> map_option Some (rd a))"

text \<open>The route at an address: its cell and its waypoints.\<close>

definition read_area :: "store \<Rightarrow> addr \<Rightarrow> search_area option" where
  "read_area h a =
     do {
       c \<leftarrow> get_area h a;
       b \<leftarrow> read_opt (read_path h) (c_bounds c);
       Some \<lparr> area_id = c_area_id c, bounds = b, area_status = c_area_status c,
              assignedUAV = c_assignedUAV c \<rparr>
     }"

text \<open>The vehicle at an address: its cell, its positions and its arrays.\<close>

definition read_cell :: "store \<Rightarrow> uav_cell \<Rightarrow> uav option" where
  "read_cell h c =
     do {
       pos \<leftarrow> get_position h (c_position c);
       start \<leftarrow> read_opt (get_position h) (c_startPosition c);
       fp \<leftarrow> read_opt (read_path h) (c_flightPath c);
       cps \<leftarrow> read_opt (read_coverage h) (c_coveragePoints c);
       ah \<leftarrow> read_opt (get_nums h) (c_altitudeHistory c);
       Some \<lparr> uid = c_uid c, isOnline = c_isOnline c, isMock = c_isMock c,
              status = c_status c, position = pos, direction = c_direction c,
              speed = c_speed c, altitude = c_altitude c, battery = c_battery c,
              targetSpeed = c_targetSpeed c, targetAltitude = c_targetAltitude c,
              currentWaypointIndex = c_currentWaypointIndex c, startPosition = start,
              flightPath = fp, coveragePoints = cps, altitudeHistory = ah,
              altitudeHistorySampleCounter = c_altitudeHistorySampleCounter c \<rparr>
     }"

definition read_uav :: "store \<Rightarrow> addr \<Rightarrow> uav option" where
  "read_uav h a = do { c \<leftarrow> get_vehicle h a; read_cell h c }"

section \<open>Invariants of a tick on the store\<close>

text \<open>
  The store before the tick is a prefix of every later store: objects are appended, and
  an object is overwritten only at an address at or beyond the old length.
\<close>

definition tick_inv :: "store \<Rightarrow> addr \<Rightarrow> store \<Rightarrow> bool" where
  "tick_inv h0 updatedUAV h \<longleftrightarrow>
     prefix h0 h \<and> length h0 \<le> updatedUAV \<and> updatedUAV < length h"

text \<open>The array that \<^verbatim>\<open>updatedUAV.coveragePoints\<close> points to is new as well.\<close>

definition own_coverage :: "store \<Rightarrow> addr \<Rightarrow> store \<Rightarrow> bool" where
  "own_coverage h0 updatedUAV h \<longleftrightarrow>
     (\<forall>c a. get_vehicle h updatedUAV = Some c \<longrightarrow> c_coveragePoints c = Some a
        \<longrightarrow> length h0 \<le> a)"

text \<open>Both together, for the steps that follow the copy of the coverage array.\<close>

definition tick_inv2 :: "store \<Rightarrow> addr \<Rightarrow> store \<Rightarrow> bool" where
  "tick_inv2 h0 updatedUAV h \<longleftrightarrow> tick_inv h0 updatedUAV h \<and> own_coverage h0 updatedUAV h"

text \<open>
  Address facts for the refinement proof: the coverage array of the new vehicle is at a
  known address of the store, and it is not the array its flight path points to.
\<close>

definition cp_is :: "addr \<Rightarrow> addr \<Rightarrow> store \<Rightarrow> bool" where
  "cp_is a uu h \<longleftrightarrow>
     a < length h \<and> (\<exists>c. get_vehicle h uu = Some c \<and> c_coveragePoints c = Some a)"

definition cp_apart :: "addr \<Rightarrow> addr \<Rightarrow> store \<Rightarrow> bool" where
  "cp_apart a uu h \<longleftrightarrow>
     (\<exists>c. get_vehicle h uu = Some c \<and> c_coveragePoints c = Some a \<and> c_flightPath c \<noteq> Some a)"

section \<open>Example vehicles and routes\<close>

text \<open>
  A vehicle as \<^verbatim>\<open>App.js\<close> (lines 253-270) creates it, placed at latitude and longitude
  \<open>0\<close>: idle, on the ground, battery full, no waypoint index, no sample counter.
\<close>

definition origin :: position where
  "origin = \<lparr> lat = 0, lng = 0 \<rparr>"

definition east_point :: position where
  "east_point = \<lparr> lat = 0, lng = 0.00028 \<rparr>"

definition far_point :: position where
  "far_point = \<lparr> lat = 0, lng = 0.001 \<rparr>"

definition mock_uav :: uav where
  "mock_uav =
     \<lparr> uid = 1, isOnline = True, isMock = True, status = Idle, position = origin,
       direction = 0, speed = 0, altitude = 0, battery = 100,
       targetSpeed = Some 50, targetAltitude = Some 80,
       currentWaypointIndex = None, startPosition = None,
       flightPath = Some [], coveragePoints = Some [],
       altitudeHistory = None, altitudeHistorySampleCounter = None \<rparr>"

text \<open>An active route assigned to that vehicle (\<^verbatim>\<open>App.js\<close>, lines 402-428).\<close>

definition route_of :: "position list \<Rightarrow> search_area" where
  "route_of wps =
     \<lparr> area_id = 1, bounds = Some wps, area_status = ''active'', assignedUAV = Some 1 \<rparr>"

text \<open>A searching vehicle whose index has reached the end of a one-waypoint route.\<close>

definition finished_uav :: uav where
  "finished_uav =
     mock_uav\<lparr> status := Searching, currentWaypointIndex := Some 1,
               startPosition := Some origin \<rparr>"

text \<open>
  A searching vehicle flying at its target altitude of 40 m, standing on the second
  waypoint of a route, with one coverage sample taken at the first waypoint, about 31 m
  to the west.
\<close>

definition low_uav :: uav where
  "low_uav =
     mock_uav\<lparr> status := Searching, position := east_point, altitude := 40,
               targetAltitude := Some 40, currentWaypointIndex := Some 1,
               startPosition := Some origin,
               coveragePoints := Some [Sample origin 40] \<rparr>"

definition low_route :: search_area where
  "low_route = route_of [origin, east_point, far_point]"

text \<open>A vehicle that starts a mission on a route of three waypoints at its position.\<close>

definition fresh_uav :: uav where
  "fresh_uav = mock_uav\<lparr> status := Searching, startPosition := Some origin \<rparr>"

definition hover_route :: search_area where
  "hover_route = route_of [origin, origin, origin]"

text \<open>
  The store of a mission about to start: the vehicle at address 3 with its position,
  its empty flight path and coverage arrays and its start position, and at address 9
  an active route whose three waypoints (addresses 5 to 7) are at the vehicle's
  position.
\<close>

definition fresh_cell :: uav_cell where
  "fresh_cell =
     \<lparr> c_uid = 1, c_isOnline = True, c_isMock = True, c_status = Searching, c_position = 0,
       c_direction = 0, c_speed = 0, c_altitude = 0, c_battery = 100,
       c_targetSpeed = Some 50, c_targetAltitude = Some 80,
       c_currentWaypointIndex = None, c_startPosition = Some 4,
       c_flightPath = Some 1, c_coveragePoints = Some 2,
       c_altitudeHistory = None, c_altitudeHistorySampleCounter = None \<rparr>"

definition hover_store :: store where
  "hover_store =
     [ Position origin, Refs [], Refs [], Vehicle fresh_cell, Position origin,
       Position origin, Position origin, Position origin, Refs [5, 6, 7],
       Area \<lparr> c_area_id = 1, c_bounds = Some 8, c_area_status = ''active'',
              c_assignedUAV = Some 1 \<rparr> ]"

text \<open>
  The store after one tick of one second: the returned vehicle at address 10, its new
  coverage array at 11 holding the sample at 15, its flight path at 12 and its altitude
  history at 13.
\<close>

definition hover_store_after :: store where
  "hover_store_after =
     hover_store @
     [ Vehicle (fresh_cell\<lparr> c_speed := 125 / 9, c_altitude := 80, c_battery := 999 / 10,
                          c_currentWaypointIndex := Some 1, c_flightPath := Some 12,
                          c_coveragePoints := Some 11, c_altitudeHistory := Some 13,
                          c_altitudeHistorySampleCounter := Some 0 \<rparr>),
       Refs [15], Refs [0], Nums [80], Position origin, Coverage 14 80 ]"

section \<open>Facts about distances\<close>

lemma calculateDistance_same: "calculateDistance p p = 0"
  by (simp add: calculateDistance_def atan2_def)

lemma atan2_abs_sin_cos:
  assumes "\<bar>t\<bar> < pi / 2"
  shows "atan2 (sqrt (sin t * sin t)) (sqrt (1 - sin t * sin t)) = \<bar>t\<bar>"
proof -
  have c: "0 < cos t" using assms by (intro cos_gt_zero_pi) auto
  have c': "0 < cos \<bar>t\<bar>" using c by (simp add: abs_if)
  have "1 - sin t * sin t = cos t * cos t"
    using sin_cos_squared_add3 [of t] by (simp add: algebra_simps)
  then have s2: "sqrt (1 - sin t * sin t) = cos t" using c by simp
  have s1: "sqrt (sin t * sin t) = sin \<bar>t\<bar>"
  proof (cases "0 \<le> t")
    case True
    then have "0 \<le> sin t" using assms by (intro sin_ge_zero) auto
    then show ?thesis using True by simp
  next
    case False
    then have "0 \<le> sin (- t)" using assms by (intro sin_ge_zero) auto
    then show ?thesis using False by (simp add: abs_if)
  qed
  have "atan2 (sin \<bar>t\<bar>) (cos t) = arctan (sin \<bar>t\<bar> / cos \<bar>t\<bar>)"
    using c by (simp add: atan2_def abs_if)
  also have "\<dots> = arctan (tan \<bar>t\<bar>)" by (simp add: tan_def)
  also have "\<dots> = \<bar>t\<bar>" using assms by (intro arctan_tan) auto
  finally show ?thesis by (simp only: s1 s2)
qed

lemma calculateDistance_equator:
  assumes "lat p = 0" "lat q = 0" "\<bar>lng q - lng p\<bar> < 180"
  shows "calculateDistance p q = 6371000 * (\<bar>lng q - lng p\<bar> * pi / 180)"
proof -
  let ?t = "(lng q - lng p) * pi / 180 / 2"
  have "\<bar>?t\<bar> = \<bar>lng q - lng p\<bar> * pi / 360" by (simp add: abs_mult)
  moreover have "\<bar>lng q - lng p\<bar> * pi < 180 * pi" using assms(3) by simp
  ultimately have b: "\<bar>?t\<bar> < pi / 2" by simp
  have "calculateDistance p q = 6371000 * (2 * atan2 (sqrt (sin ?t * sin ?t)) (sqrt (1 - sin ?t * sin ?t)))"
    using assms(1,2) by (simp add: calculateDistance_def Let_def)
  also have "\<dots> = 6371000 * (2 * \<bar>?t\<bar>)" by (simp only: atan2_abs_sin_cos [OF b])
  also have "\<dots> = 6371000 * (\<bar>lng q - lng p\<bar> * pi / 180)" by (simp add: abs_mult)
  finally show ?thesis .
qed

lemma arctan_le_self_nonneg:
  assumes "0 \<le> x"
  shows "arctan x \<le> (x::real)"
proof -
  have "(\<lambda>t. t - arctan t) 0 \<le> (\<lambda>t. t - arctan t) x"
  proof (rule DERIV_nonneg_imp_nondecreasing [OF assms])
    fix t :: real
    have "((\<lambda>t. t - arctan t) has_real_derivative (1 - inverse (1 + t\<^sup>2))) (at t)"
      by (auto intro!: derivative_eq_intros)
    moreover have "inverse (1 + t\<^sup>2) \<le> 1"
      by (rule inverse_le_1_iff [THEN iffD2]) simp
    ultimately show "\<exists>y. ((\<lambda>t. t - arctan t) has_real_derivative y) (at t) \<and> 0 \<le> y"
      by (intro exI [of _ "1 - inverse (1 + t\<^sup>2)"]) simp
  qed
  then show ?thesis by simp
qed

lemma pi_less_32: "pi < 3.2"
proof -
  have "arctan (1/5) \<le> (1/5::real)" by (rule arctan_le_self_nonneg) simp
  moreover have "0 < arctan (1/239::real)" by simp
  moreover have "pi = 16 * arctan (1/5) - 4 * arctan (1/239)" using machin by simp
  ultimately show ?thesis by linarith
qed

lemma pi_ge_3: "3 \<le> pi"
  using sin_x_le_x [of "pi / 6"] by (simp add: sin_30)

lemma east_point_distance:
  "28 \<le> calculateDistance east_point origin \<and> calculateDistance east_point origin < 35"
proof -
  have d: "calculateDistance east_point origin = 6371000 * (0.00028 * pi / 180)"
    using calculateDistance_equator [of east_point origin]
    by (simp add: east_point_def origin_def)
  have "3 \<le> pi" by (rule pi_ge_3)
  moreover have "pi < 3.2" by (rule pi_less_32)
  ultimately show ?thesis unfolding d by simp
qed

lemmas example_defs = mock_uav_def route_of_def finished_uav_def low_uav_def low_route_def
  fresh_uav_def hover_route_def origin_def east_point_def far_point_def

lemmas step_defs = init_or_ramp_def advance_or_move_def push_flightPath_def
  track_altitude_def track_coverage_def shouldAddCoveragePoint_def coverage_spacing_def
  next_counter_def
  current_index_def list_or_empty_def num_or_def slice_last_def Let_def

section \<open>What each step leaves alone\<close>

lemma init_or_ramp_fields:
  "status (init_or_ramp uav dt) = status uav"
  "position (init_or_ramp uav dt) = position uav"
  "battery (init_or_ramp uav dt) = battery uav"
  "currentWaypointIndex (init_or_ramp uav dt) = Some (current_index uav)"
  by (simp_all add: init_or_ramp_def current_index_def Let_def split: option.splits)

lemma advance_or_move_fields:
  "status (advance_or_move uav u t dt) = status u"
  "battery (advance_or_move uav u t dt) = battery u"
  "altitude (advance_or_move uav u t dt) = altitude u"
  "coveragePoints (advance_or_move uav u t dt) = coveragePoints u"
  "currentWaypointIndex (advance_or_move uav u t dt) =
     (if calculateDistance (position uav) t < 20 then Some (current_index u + 1)
      else currentWaypointIndex u)"
  "calculateDistance (position uav) t < 20 \<Longrightarrow>
     position (advance_or_move uav u t dt) = position u"
  by (simp_all add: advance_or_move_def Let_def)

lemma push_flightPath_fields:
  "status (push_flightPath uav u) = status u"
  "position (push_flightPath uav u) = position u"
  "battery (push_flightPath uav u) = battery u"
  "altitude (push_flightPath uav u) = altitude u"
  "coveragePoints (push_flightPath uav u) = coveragePoints u"
  "currentWaypointIndex (push_flightPath uav u) = currentWaypointIndex u"
  by (simp_all add: push_flightPath_def Let_def)

lemma track_altitude_fields:
  "status (track_altitude uav u) = status u"
  "position (track_altitude uav u) = position u"
  "battery (track_altitude uav u) = battery u"
  "altitude (track_altitude uav u) = altitude u"
  "coveragePoints (track_altitude uav u) = coveragePoints u"
  "currentWaypointIndex (track_altitude uav u) = currentWaypointIndex u"
  by (simp_all add: track_altitude_def Let_def)

lemma track_coverage_fields:
  "status (track_coverage u) = status u"
  "position (track_coverage u) = position u"
  "battery (track_coverage u) = battery u"
  "altitude (track_coverage u) = altitude u"
  "currentWaypointIndex (track_coverage u) = currentWaypointIndex u"
  by (simp_all add: track_coverage_def Let_def)

lemmas step_fields = init_or_ramp_fields advance_or_move_fields push_flightPath_fields
  track_altitude_fields track_coverage_fields

section \<open>The branches, field by field\<close>

lemma battery_searching_tick:
  "battery (searching_tick uav area dt) =
     (if current_index uav < length (list_or_empty (bounds area))
      then max 0 (battery uav - 0.1 * dt) else battery uav)"
  by (simp add: searching_tick_def Let_def step_fields current_index_def)

lemma index_searching_tick:
  "currentWaypointIndex (searching_tick uav area dt) =
     Some (if current_index uav < length (list_or_empty (bounds area))
             \<and> calculateDistance (position uav)
                  (list_or_empty (bounds area) ! current_index uav) < 20
           then current_index uav + 1 else current_index uav)"
  by (simp add: searching_tick_def Let_def step_fields current_index_def)

lemma position_searching_tick_near:
  "calculateDistance (position uav) (list_or_empty (bounds area) ! current_index uav) < 20
    \<Longrightarrow> position (searching_tick uav area dt) = position uav"
  by (simp add: searching_tick_def Let_def step_fields current_index_def)

lemma status_searching_tick:
  "status (searching_tick uav area dt) =
     (if current_index uav < length (list_or_empty (bounds area))
         \<and> calculateDistance (position uav)
              (list_or_empty (bounds area) ! current_index uav) < 20
         \<and> current_index uav + 1 = length (list_or_empty (bounds area))
      then Returning else status uav)"
  by (auto simp add: searching_tick_def Let_def step_fields current_index_def)

lemma battery_returning_tick:
  "battery (returning_tick uav dt) =
     (case startPosition uav of
        Some s \<Rightarrow> max 0 (battery uav - 0.08 * dt)
      | None \<Rightarrow> battery uav)"
  by (simp add: returning_tick_def Let_def split: option.splits)

section \<open>Battery\<close>

text \<open>
  Claim C1. While the vehicle is online, with its battery between 0 and 100 and a
  positive time step, one tick never raises the battery and never takes it below 0.
\<close>

theorem battery_monotone:
  assumes "isOnline uav" and "0 \<le> battery uav" and "battery uav \<le> 100" and "0 < deltaTime"
  shows "battery (updateUAVState uav searchArea deltaTime) \<le> battery uav
         \<and> 0 \<le> battery (updateUAVState uav searchArea deltaTime)"
  using assms
  by (auto simp add: updateUAVState_def battery_searching_tick battery_returning_tick
      split: option.splits)

theorem battery_monotone_witness:
  "isOnline mock_uav \<and> 0 \<le> battery mock_uav \<and> battery mock_uav \<le> 100 \<and> (0::real) < 10
   \<and> battery (updateUAVState mock_uav (None :: search_area option) 10) \<le> battery mock_uav
   \<and> 0 \<le> battery (updateUAVState mock_uav (None :: search_area option) 10)"
  using battery_monotone [of mock_uav 10 "None :: search_area option"]
  by (simp add: mock_uav_def)

text \<open>
  Claim C8, as the code has it. Take an online mock vehicle with some charge left, at
  most 100, and a tick of at least a millisecond. The battery strictly decreases
  exactly when the vehicle is idle, or returning with a start position, or searching on
  a route whose bounds hold a waypoint at the current index (an undefined index
  counting as 0); in every other case the battery is unchanged. It never goes below 0.
  The two bounds keep the statement true of the doubles of the source, where a drain
  far below the spacing of the doubles next to the battery value would be rounded
  away: the application ticks with a time step of 1 and keeps the battery in [0, 100].
\<close>

theorem battery_strict_drain:
  assumes "isOnline uav" and "isMock uav"
    and "0 < battery uav" and "battery uav \<le> 100" and "1 / 1000 \<le> deltaTime"
  shows "(battery (updateUAVState uav searchArea deltaTime) < battery uav
          \<longleftrightarrow>
            status uav = Idle
            \<or> (status uav = Returning \<and> startPosition uav \<noteq> None)
            \<or> (status uav = Searching
                \<and> (\<exists>area. searchArea = Some area
                       \<and> current_index uav < length (list_or_empty (bounds area)))))
         \<and> battery (updateUAVState uav searchArea deltaTime) \<le> battery uav
         \<and> 0 \<le> battery (updateUAVState uav searchArea deltaTime)"
proof -
  have "0 < deltaTime" using assms(5) by simp
  then show ?thesis
    using assms(1-3)
    by (auto simp add: updateUAVState_def battery_searching_tick battery_returning_tick
        split: option.splits)
qed

theorem battery_strict_drain_witness:
  "isOnline fresh_uav \<and> isMock fresh_uav \<and> 0 < battery fresh_uav
   \<and> battery fresh_uav \<le> 100 \<and> (1 / 1000 :: real) \<le> 1
   \<and> status fresh_uav = Searching
   \<and> current_index fresh_uav < length (list_or_empty (bounds hover_route))
   \<and> battery (updateUAVState fresh_uav (Some hover_route) 1) < battery fresh_uav
   \<and> 0 \<le> battery (updateUAVState fresh_uav (Some hover_route) 1)"
  using battery_strict_drain [of fresh_uav 1 "Some hover_route"]
  by (simp add: example_defs current_index_def list_or_empty_def)

text \<open>
  The room the bounds leave. Where the battery drains, it drops to 0 or by at least
  \<open>deltaTime / 100\<close>, the slowest of the three rates; under the bounds that is a drop
  of at least \<open>1 / 100000\<close>, against a spacing of about \<open>1.4 / 10 ^ 14\<close> between the
  doubles just below 100. A step of \<open>1 / 10 ^ 18\<close>, in contrast, asks for a drop of
  \<open>1 / 10 ^ 20\<close> from a full battery, which the doubles cannot represent.
\<close>

lemma battery_drain_margin:
  assumes "isOnline uav" and "isMock uav" and "0 < battery uav" and "0 < deltaTime"
    and "status uav = Idle
         \<or> (status uav = Returning \<and> startPosition uav \<noteq> None)
         \<or> (status uav = Searching
             \<and> (\<exists>area. searchArea = Some area
                    \<and> current_index uav < length (list_or_empty (bounds area))))"
  shows "battery (updateUAVState uav searchArea deltaTime)
           \<le> battery uav - min (battery uav) (deltaTime / 100)"
  using assms
  by (auto simp add: updateUAVState_def battery_searching_tick battery_returning_tick
      split: option.splits)

lemma battery_drain_tiny_step:
  "battery (updateUAVState (mock_uav :: uav) (None :: search_area option) (1 / 10 ^ 18))
     = 100 - 1 / 10 ^ 20"
  by (simp add: updateUAVState_def mock_uav_def)

text \<open>
  The claim as written fails: a searching vehicle with no route assigned keeps its
  battery.
\<close>

theorem battery_strict_drain_counterexample:
  "isOnline fresh_uav \<and> isMock fresh_uav \<and> 0 < battery fresh_uav
   \<and> status fresh_uav = Searching \<and> (0::real) < 1
   \<and> \<not> battery (updateUAVState fresh_uav (None :: search_area option) 1) < battery fresh_uav"
  by (simp add: updateUAVState_def example_defs)

section \<open>Guards\<close>

text \<open>
  Claim C9. A vehicle that is not online, or whose status is offline, or that is not a
  mock vehicle, is returned with every field unchanged, whatever the route and the time
  step.
\<close>

theorem guard_unchanged:
  assumes "\<not> isOnline uav \<or> status uav = Offline \<or> \<not> isMock uav"
  shows "updateUAVState uav searchArea deltaTime = uav"
  using assms by (auto simp add: updateUAVState_def)

theorem guard_unchanged_witness:
  "status (mock_uav\<lparr> status := Offline \<rparr>) = Offline
   \<and> updateUAVState (mock_uav\<lparr> status := Offline \<rparr>) (Some hover_route) 1
       = mock_uav\<lparr> status := Offline \<rparr>
   \<and> \<not> isOnline (fresh_uav\<lparr> isOnline := False \<rparr>)
   \<and> updateUAVState (fresh_uav\<lparr> isOnline := False \<rparr>) (Some hover_route) 1
       = fresh_uav\<lparr> isOnline := False \<rparr>
   \<and> \<not> isMock (fresh_uav\<lparr> isMock := False \<rparr>)
   \<and> updateUAVState (fresh_uav\<lparr> isMock := False \<rparr>) (Some hover_route) 1
       = fresh_uav\<lparr> isMock := False \<rparr>"
  using guard_unchanged [of "mock_uav\<lparr> status := Offline \<rparr>" "Some hover_route" 1]
    guard_unchanged [of "fresh_uav\<lparr> isOnline := False \<rparr>" "Some hover_route" 1]
    guard_unchanged [of "fresh_uav\<lparr> isMock := False \<rparr>" "Some hover_route" 1]
  by simp

section \<open>Waypoints\<close>

text \<open>
  Claim C3. An online mock vehicle that is searching, with index \<open>i\<close> inside the route's
  bounds and less than 20 m from waypoint \<open>i\<close>, leaves the tick with index \<open>i + 1\<close> and
  its position unchanged.
\<close>

theorem waypoint_advance:
  assumes "isOnline uav" and "isMock uav" and "status uav = Searching"
    and "currentWaypointIndex uav = Some i"
    and "bounds area = Some waypoints" and "i < length waypoints"
    and "calculateDistance (position uav) (waypoints ! i) < 20"
  shows "currentWaypointIndex (updateUAVState uav (Some area) deltaTime) = Some (i + 1)
         \<and> position (updateUAVState uav (Some area) deltaTime) = position uav"
  using assms
  by (simp add: updateUAVState_def index_searching_tick position_searching_tick_near
      current_index_def list_or_empty_def)

theorem waypoint_advance_witness:
  "isOnline low_uav \<and> isMock low_uav \<and> status low_uav = Searching
   \<and> currentWaypointIndex low_uav = Some 1
   \<and> bounds low_route = Some [origin, east_point, far_point]
   \<and> 1 < length [origin, east_point, far_point]
   \<and> calculateDistance (position low_uav) ([origin, east_point, far_point] ! 1) < 20
   \<and> currentWaypointIndex (updateUAVState low_uav (Some low_route) 1) = Some (1 + 1)
   \<and> position (updateUAVState low_uav (Some low_route) 1) = position low_uav"
  using waypoint_advance [of low_uav 1 low_route "[origin, east_point, far_point]" 1]
  by (simp add: low_uav_def low_route_def mock_uav_def route_of_def calculateDistance_same)

text \<open>
  Claim C2, as the code has it. For an online mock vehicle that is searching on a route
  with non-empty bounds, the tick ends in status returning exactly when the vehicle is
  within 20 m of the last waypoint of the bounds at the start of the tick, that is,
  in the tick that advances the index to the number of waypoints; in every other case
  the status stays searching. In particular a vehicle whose index already equals the
  number of waypoints stays searching.
\<close>

theorem mission_complete_returns:
  assumes "isOnline uav" and "isMock uav" and "status uav = Searching"
    and "bounds area = Some waypoints" and "waypoints \<noteq> []"
  shows "status (updateUAVState uav (Some area) deltaTime) =
           (if current_index uav < length waypoints
               \<and> calculateDistance (position uav) (waypoints ! current_index uav) < 20
               \<and> current_index uav + 1 = length waypoints
            then Returning else Searching)"
  using assms
  by (simp add: updateUAVState_def status_searching_tick list_or_empty_def)

theorem mission_complete_returns_witness:
  "isOnline fresh_uav \<and> isMock fresh_uav \<and> status fresh_uav = Searching
   \<and> bounds (route_of [origin]) = Some [origin] \<and> [origin] \<noteq> []
   \<and> status (updateUAVState fresh_uav (Some (route_of [origin])) 1) = Returning"
  using mission_complete_returns [of fresh_uav "route_of [origin]" "[origin]" 1]
  by (simp add: fresh_uav_def mock_uav_def route_of_def current_index_def
      calculateDistance_same)

text \<open>
  The claim as written fails: with the index equal to the number of waypoints at the
  start of the tick, the vehicle is still searching after it.
\<close>

theorem mission_complete_counterexample:
  "isOnline finished_uav \<and> isMock finished_uav \<and> status finished_uav = Searching
   \<and> bounds (route_of [origin]) = Some [origin] \<and> [origin] \<noteq> []
   \<and> currentWaypointIndex finished_uav = Some (length [origin])
   \<and> status (updateUAVState finished_uav (Some (route_of [origin])) 1) = Searching
   \<and> status (updateUAVState finished_uav (Some (route_of [origin])) 1) \<noteq> Returning"
  by (simp add: updateUAVState_def status_searching_tick finished_uav_def mock_uav_def
      route_of_def current_index_def list_or_empty_def)

text \<open>
  Claim C4. An online mock vehicle that is returning, with a start position less than
  20 m away, leaves the tick at exactly the start position, with speed 0, altitude 0 and
  status idle.
\<close>

theorem return_snap:
  assumes "isOnline uav" and "isMock uav" and "status uav = Returning"
    and "startPosition uav = Some start"
    and "calculateDistance (position uav) start < 20"
  shows "position (updateUAVState uav searchArea deltaTime) = start
         \<and> speed (updateUAVState uav searchArea deltaTime) = 0
         \<and> altitude (updateUAVState uav searchArea deltaTime) = 0
         \<and> status (updateUAVState uav searchArea deltaTime) = Idle"
  using assms by (simp add: updateUAVState_def returning_tick_def Let_def)

theorem return_snap_witness:
  "isOnline (finished_uav\<lparr> status := Returning, altitude := 80 \<rparr>)
   \<and> isMock (finished_uav\<lparr> status := Returning, altitude := 80 \<rparr>)
   \<and> status (finished_uav\<lparr> status := Returning, altitude := 80 \<rparr>) = Returning
   \<and> startPosition (finished_uav\<lparr> status := Returning, altitude := 80 \<rparr>) = Some origin
   \<and> calculateDistance (position (finished_uav\<lparr> status := Returning, altitude := 80 \<rparr>))
        origin < 20
   \<and> position (updateUAVState (finished_uav\<lparr> status := Returning, altitude := 80 \<rparr>)
        (Some (route_of [origin])) 1) = origin
   \<and> speed (updateUAVState (finished_uav\<lparr> status := Returning, altitude := 80 \<rparr>)
        (Some (route_of [origin])) 1) = 0
   \<and> altitude (updateUAVState (finished_uav\<lparr> status := Returning, altitude := 80 \<rparr>)
        (Some (route_of [origin])) 1) = 0
   \<and> status (updateUAVState (finished_uav\<lparr> status := Returning, altitude := 80 \<rparr>)
        (Some (route_of [origin])) 1) = Idle"
  using return_snap [of "finished_uav\<lparr> status := Returning, altitude := 80 \<rparr>" origin
      "Some (route_of [origin])" 1]
  by (simp add: finished_uav_def mock_uav_def calculateDistance_same)

section \<open>Coverage\<close>

text \<open>
  Claim C5. The claim asks for \<open>max(altitude * 0.5, 25)\<close>, and the source comments
  its fallback as a minimum of 25 m; the code returns \<open>altitude * 0.5\<close> for every
  altitude other than 0. At 40 m, the lowest target altitude the operator panel offers,
  the code gives 20 where the claim gives 25.
\<close>

theorem coverage_radius_below_minimum:
  "getCoverageRadius 40 = 20 \<and> footprintRadius 40 = 25"
  by (simp add: getCoverageRadius_def footprintRadius_def)

text \<open>Where the two agree: on the ground and from 50 m upwards.\<close>

lemma getCoverageRadius_agrees:
  "a = 0 \<or> 50 \<le> a \<Longrightarrow> getCoverageRadius a = footprintRadius a"
  by (auto simp add: getCoverageRadius_def footprintRadius_def)

text \<open>
  Claim C6. The claim asks for consecutive samples at least
  \<open>footprintRadius(altitude) * 2 * 0.7\<close> apart. At a constant 40 m that is 35 m; the
  code spaces samples by its own radius, 28 m, and records a second sample about 31 m
  from the first.
\<close>

theorem coverage_spacing_below_minimum:
  "coveragePoints (updateUAVState low_uav (Some low_route) 1)
     = Some [Sample origin 40, Sample east_point 40]
   \<and> altitude (updateUAVState low_uav (Some low_route) 1) = 40
   \<and> calculateDistance east_point origin < footprintRadius 40 * 2 * 0.7"
proof -
  have near: "calculateDistance east_point east_point < 20"
    by (simp add: calculateDistance_same)
  have far: "getCoverageRadius 40 * 2 * 0.7 \<le> calculateDistance east_point origin"
    using east_point_distance by (simp add: getCoverageRadius_def)
  have "coveragePoints (updateUAVState low_uav (Some low_route) 1)
     = Some [Sample origin 40, Sample east_point 40]"
    using near far
    by (simp add: updateUAVState_def searching_tick_def step_defs low_uav_def low_route_def
        mock_uav_def route_of_def)
  moreover have "altitude (updateUAVState low_uav (Some low_route) 1) = 40"
    using near
    by (simp add: updateUAVState_def searching_tick_def step_defs low_uav_def low_route_def
        mock_uav_def route_of_def)
  moreover have "calculateDistance east_point origin < footprintRadius 40 * 2 * 0.7"
    using east_point_distance by (simp add: footprintRadius_def)
  ultimately show ?thesis by simp
qed

text \<open>The vehicle of that tick passes the guards: it is online, a mock, and searching.\<close>

theorem coverage_spacing_below_minimum_witness:
  "isOnline low_uav \<and> isMock low_uav \<and> status low_uav = Searching
   \<and> altitude low_uav = 40
   \<and> coveragePoints low_uav = Some [Sample origin 40]
   \<and> coveragePoints (updateUAVState low_uav (Some low_route) 1)
       = Some [Sample origin 40, Sample east_point 40]
   \<and> calculateDistance east_point origin < footprintRadius 40 * 2 * 0.7"
  using coverage_spacing_below_minimum by (simp add: low_uav_def mock_uav_def)

text \<open>
  What the code does keep: a sample is pushed only when there is none yet or the last
  one is at least \<open>getCoverageRadius(altitude) * 2 * 0.7\<close> away.
\<close>

lemma track_coverage_spacing:
  assumes "coveragePoints u = Some cps" and "cps \<noteq> []"
    and "coveragePoints (track_coverage u) \<noteq> coveragePoints u"
  shows "coveragePoints (track_coverage u) = Some (cps @ [Sample (position u) (altitude u)])
         \<and> getCoverageRadius (altitude u) * 2 * 0.7
             \<le> calculateDistance (position u) (sample_position (last cps))"
  using assms
  by (auto simp add: track_coverage_def shouldAddCoveragePoint_def coverage_spacing_def
      list_or_empty_def Let_def split: if_splits list.splits)

section \<open>Altitude history\<close>

text \<open>
  Claim C7. The claim asks for a sample on every fifth tick only, as the source's own
  comment does. The counter test at line 228 also holds for a counter of 0, so a counter
  that starts undefined is set to 0 on every tick and never advances: a vehicle created
  by the application samples its altitude on each of two consecutive ticks.
\<close>

theorem altitude_sampled_every_tick:
  "altitudeHistorySampleCounter fresh_uav = None
   \<and> altitudeHistory fresh_uav = None
   \<and> altitudeHistory (updateUAVState fresh_uav (Some hover_route) 1) = Some [80]
   \<and> altitudeHistorySampleCounter (updateUAVState fresh_uav (Some hover_route) 1) = Some 0
   \<and> altitudeHistory
        (updateUAVState (updateUAVState fresh_uav (Some hover_route) 1) (Some hover_route) 1)
      = Some [80, 80]
   \<and> altitudeHistorySampleCounter
        (updateUAVState (updateUAVState fresh_uav (Some hover_route) 1) (Some hover_route) 1)
      = Some 0"
  by (simp add: updateUAVState_def searching_tick_def step_defs example_defs
      calculateDistance_same)

text \<open>The vehicle of those ticks passes the guards: it is online, a mock, and searching.\<close>

theorem altitude_sampled_every_tick_witness:
  "isOnline fresh_uav \<and> isMock fresh_uav \<and> status fresh_uav = Searching
   \<and> altitudeHistory (updateUAVState fresh_uav (Some hover_route) 1) = Some [80]
   \<and> altitudeHistory
        (updateUAVState (updateUAVState fresh_uav (Some hover_route) 1) (Some hover_route) 1)
      = Some [80, 80]"
  using altitude_sampled_every_tick by (simp add: fresh_uav_def mock_uav_def)

text \<open>The counter never leaves 0 once it is undefined or 0.\<close>

lemma next_counter_stuck: "c = None \<or> c = Some 0 \<Longrightarrow> next_counter c = 0"
  by (auto simp add: next_counter_def)

text \<open>The cap of 8 entries does hold: the oldest entries are dropped.\<close>

lemma track_altitude_capped:
  assumes "length (list_or_empty (altitudeHistory uav)) \<le> 8"
  shows "length (list_or_empty (altitudeHistory (track_altitude uav u))) \<le> 8"
  using assms
  by (simp add: track_altitude_def Let_def list_or_empty_def slice_last_def)

lemma track_altitude_drops_oldest:
  assumes "altitudeHistory uav = Some h" and "length h = 8"
    and "next_counter (altitudeHistorySampleCounter uav) mod 5 = 0"
  shows "altitudeHistory (track_altitude uav u) = Some (tl h @ [altitude u])"
  using assms
  by (cases h) (simp_all add: track_altitude_def Let_def list_or_empty_def slice_last_def)

section \<open>The tick writes to new objects only\<close>

lemma prefix_list_update:
  assumes "prefix h0 h" and "length h0 \<le> a"
  shows "prefix h0 (h[a := x])"
proof -
  from assms(1) obtain zs where "h = h0 @ zs" by (auto simp add: prefix_def)
  then show ?thesis using assms(2) by (simp add: list_update_append)
qed

lemma prefix_snoc: "prefix h0 h \<Longrightarrow> prefix h0 (h @ [x])"
  by (simp add: prefix_def) auto

lemma tick_inv_alloc:
  "tick_inv h0 uu h \<Longrightarrow> alloc h obj = (h', a) \<Longrightarrow> tick_inv h0 uu h' \<and> length h0 \<le> a"
  by (auto simp add: tick_inv_def alloc_def prefix_snoc dest: prefix_length_le)

lemma own_coverage_alloc:
  "own_coverage h0 uu h \<Longrightarrow> uu < length h \<Longrightarrow> alloc h obj = (h', a)
     \<Longrightarrow> own_coverage h0 uu h'"
  by (auto simp add: own_coverage_def alloc_def get_vehicle_def lookup_def nth_append
      split: option.splits hobj.splits if_splits)

lemma tick_inv_set_vehicle:
  "set_vehicle h uu f = Some h' \<Longrightarrow> tick_inv h0 uu h \<Longrightarrow> tick_inv h0 uu h'"
  by (auto simp add: set_vehicle_def tick_inv_def prefix_list_update
      split: option.splits hobj.splits)

lemma own_coverage_set_vehicle:
  assumes "set_vehicle h uu f = Some h'" and "own_coverage h0 uu h"
    and "\<And>c. c_coveragePoints (f c) = c_coveragePoints c"
  shows "own_coverage h0 uu h'"
  using assms
  by (auto simp add: set_vehicle_def own_coverage_def get_vehicle_def lookup_def
      split: option.splits hobj.splits if_splits)

lemma own_coverage_set_fresh:
  assumes "set_vehicle h uu (\<lambda>c. c\<lparr> c_coveragePoints := Some a \<rparr>) = Some h'"
    and "length h0 \<le> a"
  shows "own_coverage h0 uu h'"
  using assms
  by (auto simp add: set_vehicle_def own_coverage_def get_vehicle_def lookup_def
      split: option.splits hobj.splits if_splits)

lemma tick_inv_push_ref:
  "push_ref h a x = Some h' \<Longrightarrow> tick_inv h0 uu h \<Longrightarrow> length h0 \<le> a \<Longrightarrow> tick_inv h0 uu h'"
  by (auto simp add: push_ref_def tick_inv_def prefix_list_update
      split: option.splits hobj.splits)

lemma init_or_ramp_store_inv:
  "init_or_ramp_store h uav uu dt = Some h' \<Longrightarrow> tick_inv h0 uu h \<Longrightarrow> tick_inv h0 uu h'"
  by (auto simp add: init_or_ramp_store_def Let_def
      split: Option.bind_splits option.splits intro: tick_inv_set_vehicle)

lemma copy_coveragePoints_inv:
  assumes "copy_coveragePoints h uav uu = Some h'" and "tick_inv h0 uu h"
  shows "tick_inv h0 uu h' \<and> own_coverage h0 uu h'"
proof -
  from assms(1) obtain xs where
    set: "set_vehicle (h @ [Refs xs]) uu (\<lambda>c. c\<lparr> c_coveragePoints := Some (length h) \<rparr>) = Some h'"
    by (auto simp add: copy_coveragePoints_def alloc_def split: Option.bind_splits)
  have a: "tick_inv h0 uu (h @ [Refs xs]) \<and> length h0 \<le> length h"
    using tick_inv_alloc [OF assms(2), of "Refs xs"] by (simp add: alloc_def)
  show ?thesis
    using tick_inv_set_vehicle [OF set] own_coverage_set_fresh [OF set] a by simp
qed

lemma tick_inv_snoc: "tick_inv h0 uu h \<Longrightarrow> tick_inv h0 uu (h @ [x])"
  using tick_inv_alloc [of h0 uu h x] by (simp add: alloc_def)

lemma tick_inv2_snoc: "tick_inv2 h0 uu h \<Longrightarrow> tick_inv2 h0 uu (h @ [x])"
  using tick_inv_snoc [of h0 uu h x] own_coverage_alloc [of h0 uu h x]
  by (simp add: tick_inv2_def alloc_def tick_inv_def)

lemma tick_inv2_set_vehicle:
  assumes "set_vehicle h uu f = Some h'" and "tick_inv2 h0 uu h"
    and "\<And>c. c_coveragePoints (f c) = c_coveragePoints c"
  shows "tick_inv2 h0 uu h'"
  using assms tick_inv_set_vehicle [of h uu f h' h0] own_coverage_set_vehicle [of h uu f h' h0]
  by (simp add: tick_inv2_def)

lemma advance_or_move_store_inv:
  "advance_or_move_store h uav uu t dt = Some h' \<Longrightarrow> tick_inv2 h0 uu h \<Longrightarrow> tick_inv2 h0 uu h'"
  apply (clarsimp simp add: advance_or_move_store_def Let_def alloc_def
      split: Option.bind_splits if_splits)
   apply (rule tick_inv2_snoc | (rule tick_inv2_set_vehicle, assumption) | simp)+
  done

lemma push_flightPath_store_inv:
  "push_flightPath_store h uav uu = Some h' \<Longrightarrow> tick_inv2 h0 uu h \<Longrightarrow> tick_inv2 h0 uu h'"
  apply (clarsimp simp add: push_flightPath_store_def Let_def alloc_def
      split: Option.bind_splits if_splits)
   apply (rule tick_inv2_snoc | (rule tick_inv2_set_vehicle, assumption) | simp)+
  done

lemma track_altitude_store_inv:
  "track_altitude_store h uav uu = Some h' \<Longrightarrow> tick_inv2 h0 uu h \<Longrightarrow> tick_inv2 h0 uu h'"
  apply (clarsimp simp add: track_altitude_store_def Let_def alloc_def
      split: Option.bind_splits if_splits option.splits)
     apply (rule tick_inv2_snoc | (rule tick_inv2_set_vehicle, assumption) | simp)+
  done

lemma track_coverage_store_inv:
  assumes "track_coverage_store h uu = Some h'" and "tick_inv2 h0 uu h"
  shows "tick_inv h0 uu h'"
proof (cases "h' = h")
  case True
  then show ?thesis using assms(2) by (simp add: tick_inv2_def)
next
  case False
  with assms(1) obtain up cpa p a where
    up: "get_vehicle h uu = Some up" and cpa: "c_coveragePoints up = Some cpa"
    and push: "push_ref (h @ [Position p] @ [Coverage (length h) a]) cpa (Suc (length h)) = Some h'"
    by (auto simp add: track_coverage_store_def Let_def alloc_def
        split: Option.bind_splits if_splits)
  have "length h0 \<le> cpa"
    using assms(2) up cpa by (auto simp add: tick_inv2_def own_coverage_def)
  moreover have "tick_inv h0 uu (h @ [Position p] @ [Coverage (length h) a])"
    using assms(2) tick_inv_snoc [OF tick_inv_snoc, of h0 uu h "Position p" "Coverage (length h) a"]
    by (simp add: tick_inv2_def)
  ultimately show ?thesis using tick_inv_push_ref [OF push] by simp
qed

lemma searching_store_inv:
  assumes "searching_store h uav uu area dt = Some h'" and "tick_inv h0 uu h"
  shows "tick_inv h0 uu h'"
proof -
  from assms(1) obtain h1 h2 where
    h1: "init_or_ramp_store h uav uu dt = Some h1" and
    h2: "copy_coveragePoints h1 uav uu = Some h2"
    by (auto simp add: searching_store_def split: Option.bind_splits)
  have inv2: "tick_inv2 h0 uu h2"
    using copy_coveragePoints_inv [OF h2 init_or_ramp_store_inv [OF h1 assms(2)]]
    by (simp add: tick_inv2_def)
  show ?thesis
  proof (cases "h' = h2")
    case True
    then show ?thesis using inv2 by (simp add: tick_inv2_def)
  next
    case False
    with assms(1) h1 h2 obtain t h3 h4 h5 h6 f h7 where
      h3: "advance_or_move_store h2 uav uu t dt = Some h3" and
      h4: "push_flightPath_store h3 uav uu = Some h4" and
      h5: "track_altitude_store h4 uav uu = Some h5" and
      h6: "track_coverage_store h5 uu = Some h6" and
      h7: "set_vehicle h6 uu f = Some h7" and
      last: "h' = h7 \<or> set_vehicle h7 uu (\<lambda>c. c\<lparr> c_status := Returning \<rparr>) = Some h'"
      by (auto simp add: searching_store_def split: Option.bind_splits if_splits)
    have "tick_inv2 h0 uu h5"
      using track_altitude_store_inv [OF h5 push_flightPath_store_inv [OF h4
            advance_or_move_store_inv [OF h3 inv2]]] .
    then have "tick_inv h0 uu h6" using track_coverage_store_inv [OF h6] by simp
    then have "tick_inv h0 uu h7" using tick_inv_set_vehicle [OF h7] by simp
    then show ?thesis using last tick_inv_set_vehicle [of h7 uu _ h' h0] by auto
  qed
qed

lemma push_flightPath_store_frame:
  "push_flightPath_store h uav uu = Some h' \<Longrightarrow> tick_inv h0 uu h \<Longrightarrow> tick_inv h0 uu h'"
  apply (clarsimp simp add: push_flightPath_store_def Let_def alloc_def
      split: Option.bind_splits if_splits)
   apply (rule tick_inv_snoc | (rule tick_inv_set_vehicle, assumption) | simp)+
  done

lemma track_altitude_store_frame:
  "track_altitude_store h uav uu = Some h' \<Longrightarrow> tick_inv h0 uu h \<Longrightarrow> tick_inv h0 uu h'"
  apply (clarsimp simp add: track_altitude_store_def Let_def alloc_def
      split: Option.bind_splits if_splits option.splits)
     apply (rule tick_inv_snoc | (rule tick_inv_set_vehicle, assumption) | simp)+
  done

lemma returning_store_inv:
  "returning_store h uav uu dt = Some h' \<Longrightarrow> tick_inv h0 uu h \<Longrightarrow> tick_inv h0 uu h'"
  apply (clarsimp simp add: returning_store_def Let_def alloc_def
      split: Option.bind_splits if_splits option.splits)
    apply (rule tick_inv_snoc | (rule tick_inv_set_vehicle, assumption)
      | (rule track_altitude_store_frame, assumption)
      | (rule push_flightPath_store_frame, assumption) | simp)+
  done

lemma updateUAVState_store_frame:
  assumes "updateUAVState_store h uav searchArea deltaTime = Some (h', updatedUAV)"
  shows "tick_inv h updatedUAV h'"
proof -
  from assms obtain u where u: "get_vehicle h uav = Some u" and uu: "updatedUAV = length h"
    by (auto simp add: updateUAVState_store_def alloc_def Let_def
        split: Option.bind_splits if_splits option.splits)
  have start: "tick_inv h (length h) (h @ [Vehicle u])"
    by (simp add: tick_inv_def)
  from assms u uu show ?thesis
    apply (clarsimp simp add: updateUAVState_store_def alloc_def Let_def
        split: Option.bind_splits if_splits option.splits)
    apply (rule start | (rule tick_inv_set_vehicle, assumption)
      | (rule searching_store_inv, assumption)
      | (rule returning_store_inv, assumption) | simp)+
    done
qed

lemmas store_defs = updateUAVState_store_def searching_store_def returning_store_def
  init_or_ramp_store_def copy_coveragePoints_def advance_or_move_store_def
  push_flightPath_store_def track_altitude_store_def track_coverage_store_def
  last_sample_position_def alloc_def lookup_def get_vehicle_def get_area_def
  get_position_def get_refs_def get_nums_def refs_or_empty_def nums_or_empty_def
  set_vehicle_def push_ref_def cell_index_def

section \<open>Reading values back after the store has changed\<close>

subsection \<open>After an allocation\<close>

text \<open>What could be read from a store reads the same after the store has grown.\<close>

lemma get_grow:
  "get_position h b \<noteq> None \<Longrightarrow> get_position (h @ zs) b = get_position h b"
  "get_refs h b \<noteq> None \<Longrightarrow> get_refs (h @ zs) b = get_refs h b"
  "get_nums h b \<noteq> None \<Longrightarrow> get_nums (h @ zs) b = get_nums h b"
  "get_vehicle h b \<noteq> None \<Longrightarrow> get_vehicle (h @ zs) b = get_vehicle h b"
  "get_area h b \<noteq> None \<Longrightarrow> get_area (h @ zs) b = get_area h b"
  by (auto simp add: get_position_def get_refs_def get_nums_def get_vehicle_def get_area_def
      lookup_def nth_append split: option.splits hobj.splits if_splits)

lemma get_new:
  "get_position (h @ [Position p]) (length h) = Some p"
  "get_refs (h @ [Refs xs]) (length h) = Some xs"
  "get_nums (h @ [Nums ns]) (length h) = Some ns"
  "get_vehicle (h @ [Vehicle c]) (length h) = Some c"
  by (simp_all add: get_position_def get_refs_def get_nums_def get_vehicle_def lookup_def)

lemma read_positions_grow:
  "read_positions h as \<noteq> None \<Longrightarrow> read_positions (h @ zs) as = read_positions h as"
  by (induction as) (auto simp add: get_grow split: Option.bind_splits)

lemma read_sample_grow:
  "read_sample h a \<noteq> None \<Longrightarrow> read_sample (h @ zs) a = read_sample h a"
  by (auto simp add: read_sample_def lookup_def nth_append get_grow
      split: option.splits hobj.splits if_splits)

lemma read_samples_grow:
  "read_samples h as \<noteq> None \<Longrightarrow> read_samples (h @ zs) as = read_samples h as"
  by (induction as) (auto simp add: read_sample_grow split: Option.bind_splits)

lemma read_path_grow: "read_path h a \<noteq> None \<Longrightarrow> read_path (h @ zs) a = read_path h a"
  by (auto simp add: read_path_def get_grow read_positions_grow split: Option.bind_splits)

lemma read_coverage_grow:
  "read_coverage h a \<noteq> None \<Longrightarrow> read_coverage (h @ zs) a = read_coverage h a"
  by (auto simp add: read_coverage_def get_grow read_samples_grow split: Option.bind_splits)

lemma read_opt_grow:
  assumes "\<And>a. rd h a \<noteq> None \<Longrightarrow> rd (h @ zs) a = rd h a"
    and "read_opt (rd h) r \<noteq> None"
  shows "read_opt (rd (h @ zs)) r = read_opt (rd h) r"
  using assms by (cases r) (auto simp add: read_opt_def)

lemma read_cell_grow:
  assumes "read_cell h c = Some w"
  shows "read_cell (h @ zs) c = Some w"
  using assms
  by (auto simp add: read_cell_def get_grow
        read_opt_grow [where rd = get_position, OF get_grow(1)]
        read_opt_grow [where rd = read_path, OF read_path_grow]
        read_opt_grow [where rd = read_coverage, OF read_coverage_grow]
        read_opt_grow [where rd = get_nums, OF get_grow(3)]
      split: Option.bind_splits)

lemma read_uav_grow: "read_uav h a = Some v \<Longrightarrow> read_uav (h @ zs) a = Some v"
  by (auto simp add: read_uav_def get_grow read_cell_grow split: Option.bind_splits)

lemma read_area_grow: "read_area h a = Some r \<Longrightarrow> read_area (h @ zs) a = Some r"
  by (auto simp add: read_area_def get_grow
        read_opt_grow [where rd = read_path, OF read_path_grow]
      split: Option.bind_splits)

lemma get_area_prefix:
  "prefix h h' \<Longrightarrow> get_area h a = Some c \<Longrightarrow> get_area h' a = Some c"
  by (auto simp add: prefix_def get_grow)

lemma get_refs_prefix:
  "prefix h h' \<Longrightarrow> get_refs h a = Some xs \<Longrightarrow> get_refs h' a = Some xs"
  by (auto simp add: prefix_def get_grow)

lemma refs_or_empty_prefix:
  "prefix h h' \<Longrightarrow> refs_or_empty h x = Some xs \<Longrightarrow> refs_or_empty h' x = Some xs"
  by (cases x) (auto simp add: refs_or_empty_def get_refs_prefix)

lemma read_positions_prefix:
  "prefix h h' \<Longrightarrow> read_positions h as = Some ps \<Longrightarrow> read_positions h' as = Some ps"
  by (auto simp add: prefix_def read_positions_grow)

lemma read_area_prefix: "prefix h h' \<Longrightarrow> read_area h a = Some r \<Longrightarrow> read_area h' a = Some r"
  by (auto simp add: prefix_def read_area_grow)

lemma read_uav_prefix: "prefix h h' \<Longrightarrow> read_uav h a = Some v \<Longrightarrow> read_uav h' a = Some v"
  by (auto simp add: prefix_def read_uav_grow)

subsection \<open>After a write to a vehicle object\<close>

lemma lookup_update:
  "lookup (h[a := x]) b = (if b = a \<and> a < length h then Some x else lookup h b)"
  by (auto simp add: lookup_def)

lemma get_set_vehicle:
  assumes "get_vehicle h a \<noteq> None"
  shows "get_position (h[a := Vehicle c]) b = get_position h b"
    and "get_refs (h[a := Vehicle c]) b = get_refs h b"
    and "get_nums (h[a := Vehicle c]) b = get_nums h b"
    and "get_area (h[a := Vehicle c]) b = get_area h b"
    and "get_vehicle (h[a := Vehicle c]) b = (if b = a then Some c else get_vehicle h b)"
proof -
  from assms obtain c0 where c0: "lookup h a = Some (Vehicle c0)"
    by (auto simp add: get_vehicle_def split: option.splits hobj.splits)
  then have len: "a < length h" by (simp add: lookup_def split: if_splits)
  show "get_position (h[a := Vehicle c]) b = get_position h b"
    using c0 len by (simp add: get_position_def lookup_update)
  show "get_refs (h[a := Vehicle c]) b = get_refs h b"
    using c0 len by (simp add: get_refs_def lookup_update)
  show "get_nums (h[a := Vehicle c]) b = get_nums h b"
    using c0 len by (simp add: get_nums_def lookup_update)
  show "get_area (h[a := Vehicle c]) b = get_area h b"
    using c0 len by (simp add: get_area_def lookup_update)
  show "get_vehicle (h[a := Vehicle c]) b = (if b = a then Some c else get_vehicle h b)"
    using c0 len by (simp add: get_vehicle_def lookup_update)
qed

lemma read_sample_set_vehicle:
  assumes "get_vehicle h a \<noteq> None"
  shows "read_sample (h[a := Vehicle c]) b = read_sample h b"
proof -
  from assms obtain c0 where c0: "lookup h a = Some (Vehicle c0)"
    by (auto simp add: get_vehicle_def split: option.splits hobj.splits)
  then have len: "a < length h" by (simp add: lookup_def split: if_splits)
  show ?thesis
    using c0 len
    by (simp add: read_sample_def lookup_update get_set_vehicle(1) [OF assms]
        split: option.splits hobj.splits)
qed

lemma read_positions_set_vehicle:
  "get_vehicle h a \<noteq> None \<Longrightarrow> read_positions (h[a := Vehicle c]) as = read_positions h as"
  by (induction as) (simp_all add: get_set_vehicle)

lemma read_samples_set_vehicle:
  "get_vehicle h a \<noteq> None \<Longrightarrow> read_samples (h[a := Vehicle c]) as = read_samples h as"
  by (induction as) (simp_all add: read_sample_set_vehicle)

lemma read_cell_set_vehicle:
  "get_vehicle h a \<noteq> None \<Longrightarrow> read_cell (h[a := Vehicle c]) c' = read_cell h c'"
  by (simp add: read_cell_def read_opt_def read_path_def read_coverage_def get_set_vehicle
      read_positions_set_vehicle read_samples_set_vehicle cong: option.case_cong)

lemma set_vehicle_Some:
  "get_vehicle h a = Some c \<Longrightarrow> set_vehicle h a f = Some (h[a := Vehicle (f c)])"
  by (auto simp add: set_vehicle_def get_vehicle_def split: option.splits hobj.splits)

lemma read_uav_set_vehicle:
  "get_vehicle h a \<noteq> None \<Longrightarrow> read_uav (h[a := Vehicle c']) a = read_cell h c'"
  by (simp add: read_uav_def get_set_vehicle read_cell_set_vehicle)

subsection \<open>After a push onto an array\<close>

lemma get_push_ref:
  assumes "get_refs h a \<noteq> None"
  shows "get_position (h[a := Refs ys]) b = get_position h b"
    and "get_nums (h[a := Refs ys]) b = get_nums h b"
    and "get_area (h[a := Refs ys]) b = get_area h b"
    and "get_vehicle (h[a := Refs ys]) b = get_vehicle h b"
    and "get_refs (h[a := Refs ys]) b = (if b = a then Some ys else get_refs h b)"
proof -
  from assms obtain xs where xs: "lookup h a = Some (Refs xs)"
    by (auto simp add: get_refs_def split: option.splits hobj.splits)
  then have len: "a < length h" by (simp add: lookup_def split: if_splits)
  show "get_position (h[a := Refs ys]) b = get_position h b"
    using xs len by (simp add: get_position_def lookup_update)
  show "get_nums (h[a := Refs ys]) b = get_nums h b"
    using xs len by (simp add: get_nums_def lookup_update)
  show "get_area (h[a := Refs ys]) b = get_area h b"
    using xs len by (simp add: get_area_def lookup_update)
  show "get_vehicle (h[a := Refs ys]) b = get_vehicle h b"
    using xs len by (simp add: get_vehicle_def lookup_update)
  show "get_refs (h[a := Refs ys]) b = (if b = a then Some ys else get_refs h b)"
    using xs len by (simp add: get_refs_def lookup_update)
qed

lemma read_sample_push_ref:
  assumes "get_refs h a \<noteq> None"
  shows "read_sample (h[a := Refs ys]) b = read_sample h b"
proof -
  from assms obtain xs where xs: "lookup h a = Some (Refs xs)"
    by (auto simp add: get_refs_def split: option.splits hobj.splits)
  then have len: "a < length h" by (simp add: lookup_def split: if_splits)
  show ?thesis
    using xs len
    by (simp add: read_sample_def lookup_update get_push_ref(1) [OF assms]
        split: option.splits hobj.splits)
qed

lemma read_positions_push_ref:
  "get_refs h a \<noteq> None \<Longrightarrow> read_positions (h[a := Refs ys]) as = read_positions h as"
  by (induction as) (simp_all add: get_push_ref)

lemma read_samples_push_ref:
  "get_refs h a \<noteq> None \<Longrightarrow> read_samples (h[a := Refs ys]) as = read_samples h as"
  by (induction as) (simp_all add: read_sample_push_ref)

lemma read_samples_append:
  "read_samples h (as @ bs) =
     do { xs \<leftarrow> read_samples h as; ys \<leftarrow> read_samples h bs; Some (xs @ ys) }"
  by (induction as) (auto split: Option.bind_splits)

lemma read_positions_append:
  "read_positions h (as @ bs) =
     do { xs \<leftarrow> read_positions h as; ys \<leftarrow> read_positions h bs; Some (xs @ ys) }"
  by (induction as) (auto split: Option.bind_splits)

section \<open>The tick on the store computes the tick on values\<close>

text \<open>
  The two models are one program: on a store where the vehicle and the route read back
  as values, the tick on the store returns, and the vehicle it returns reads back as
  the result of the tick on those values.
\<close>

subsection \<open>Each step on the store computes the step on values\<close>

lemma read_uavE:
  assumes "read_uav h a = Some w"
  obtains c where "get_vehicle h a = Some c" and "read_cell h c = Some w"
  using assms by (auto simp add: read_uav_def split: Option.bind_splits)

lemma read_cell_scalars:
  assumes "read_cell h c = Some w"
  shows "c_status c = status w" and "c_speed c = speed w" and "c_altitude c = altitude w"
    and "c_battery c = battery w" and "c_targetSpeed c = targetSpeed w"
    and "c_targetAltitude c = targetAltitude w"
    and "c_currentWaypointIndex c = currentWaypointIndex w"
    and "c_altitudeHistorySampleCounter c = altitudeHistorySampleCounter w"
    and "c_isOnline c = isOnline w" and "c_isMock c = isMock w"
    and "c_direction c = direction w"
    and "cell_index c = current_index w"
  using assms
  by (auto simp add: read_cell_def cell_index_def current_index_def split: Option.bind_splits)

lemma read_cell_refs:
  assumes "read_cell h c = Some w"
  shows "get_position h (c_position c) = Some (position w)"
    and "read_opt (get_position h) (c_startPosition c) = Some (startPosition w)"
    and "read_opt (read_path h) (c_flightPath c) = Some (flightPath w)"
    and "read_opt (read_coverage h) (c_coveragePoints c) = Some (coveragePoints w)"
    and "read_opt (get_nums h) (c_altitudeHistory c) = Some (altitudeHistory w)"
  using assms by (auto simp add: read_cell_def split: Option.bind_splits)

lemma init_or_ramp_sim:
  assumes "read_uav h uav = Some v" and "read_uav h uu = Some v"
  shows "\<exists>h'. init_or_ramp_store h uav uu dt = Some h'
              \<and> read_uav h' uu = Some (init_or_ramp v dt)"
proof -
  from assms(1) obtain cu where cu: "get_vehicle h uav = Some cu" "read_cell h cu = Some v"
    by (rule read_uavE)
  from assms(2) obtain c where c: "get_vehicle h uu = Some c" "read_cell h c = Some v"
    by (rule read_uavE)
  note sc = read_cell_scalars [OF cu(2)]
  show ?thesis
    using cu(1) c
    by (cases "currentWaypointIndex v")
      (auto simp add: init_or_ramp_store_def init_or_ramp_def sc Let_def
        set_vehicle_Some read_uav_set_vehicle read_cell_def split: Option.bind_splits)
qed

lemma read_cell_update_refs:
  assumes "read_cell h c = Some w"
  shows "get_position h a = Some p
           \<Longrightarrow> read_cell h (c\<lparr> c_position := a \<rparr>) = Some (w\<lparr> position := p \<rparr>)"
    and "read_path h a = Some ps
           \<Longrightarrow> read_cell h (c\<lparr> c_flightPath := Some a \<rparr>) = Some (w\<lparr> flightPath := Some ps \<rparr>)"
    and "read_coverage h a = Some cs
           \<Longrightarrow> read_cell h (c\<lparr> c_coveragePoints := Some a \<rparr>)
               = Some (w\<lparr> coveragePoints := Some cs \<rparr>)"
    and "get_nums h a = Some ns
           \<Longrightarrow> read_cell h (c\<lparr> c_altitudeHistory := Some a \<rparr>)
               = Some (w\<lparr> altitudeHistory := Some ns \<rparr>)"
  using assms by (auto simp add: read_cell_def read_opt_def split: Option.bind_splits)

lemma read_cell_update_scalars:
  assumes "read_cell h c = Some w"
  shows "read_cell h (c\<lparr> c_currentWaypointIndex := i \<rparr>) = Some (w\<lparr> currentWaypointIndex := i \<rparr>)"
    and "read_cell h (c\<lparr> c_direction := d \<rparr>) = Some (w\<lparr> direction := d \<rparr>)"
    and "read_cell h (c\<lparr> c_battery := b \<rparr>) = Some (w\<lparr> battery := b \<rparr>)"
    and "read_cell h (c\<lparr> c_status := s \<rparr>) = Some (w\<lparr> status := s \<rparr>)"
    and "read_cell h (c\<lparr> c_speed := x \<rparr>) = Some (w\<lparr> speed := x \<rparr>)"
    and "read_cell h (c\<lparr> c_altitude := y \<rparr>) = Some (w\<lparr> altitude := y \<rparr>)"
    and "read_cell h (c\<lparr> c_altitudeHistorySampleCounter := n \<rparr>)
           = Some (w\<lparr> altitudeHistorySampleCounter := n \<rparr>)"
  using assms by (auto simp add: read_cell_def split: Option.bind_splits)

lemma refs_or_empty_coverage:
  assumes "read_opt (read_coverage h) r = Some cs"
  shows "\<exists>xs. refs_or_empty h r = Some xs \<and> read_samples h xs = Some (list_or_empty cs)"
  using assms
  by (cases r)
    (auto simp add: read_opt_def refs_or_empty_def read_coverage_def list_or_empty_def
      split: Option.bind_splits)

lemma refs_or_empty_path:
  assumes "read_opt (read_path h) r = Some ps"
  shows "\<exists>xs. refs_or_empty h r = Some xs \<and> read_positions h xs = Some (list_or_empty ps)"
  using assms
  by (cases r)
    (auto simp add: read_opt_def refs_or_empty_def read_path_def list_or_empty_def
      split: Option.bind_splits)

lemma nums_or_empty_history:
  assumes "read_opt (get_nums h) r = Some ns"
  shows "nums_or_empty h r = Some (list_or_empty ns)"
  using assms
  by (cases r) (auto simp add: read_opt_def nums_or_empty_def list_or_empty_def)

lemma copy_coveragePoints_sim:
  assumes "read_uav h uav = Some v" and "read_uav h uu = Some w"
  shows "\<exists>h'. copy_coveragePoints h uav uu = Some h'
              \<and> read_uav h' uu
                  = Some (w\<lparr> coveragePoints := Some (list_or_empty (coveragePoints v)) \<rparr>)"
proof -
  from assms(1) obtain cu where cu: "get_vehicle h uav = Some cu" "read_cell h cu = Some v"
    by (rule read_uavE)
  from assms(2) obtain c where c: "get_vehicle h uu = Some c" "read_cell h c = Some w"
    by (rule read_uavE)
  from refs_or_empty_coverage [OF read_cell_refs(4) [OF cu(2)]] obtain xs where
    xs: "refs_or_empty h (c_coveragePoints cu) = Some xs"
    and ss: "read_samples h xs = Some (list_or_empty (coveragePoints v))"
    by blast
  let ?h1 = "h @ [Refs xs]"
  have c1: "get_vehicle ?h1 uu = Some c" using c(1) by (simp add: get_grow)
  have "read_coverage ?h1 (length h) = Some (list_or_empty (coveragePoints v))"
    using ss by (simp add: read_coverage_def get_new read_samples_grow)
  then have "read_cell ?h1 (c\<lparr> c_coveragePoints := Some (length h) \<rparr>)
      = Some (w\<lparr> coveragePoints := Some (list_or_empty (coveragePoints v)) \<rparr>)"
    using read_cell_update_refs(3) [OF read_cell_grow [OF c(2)]] by simp
  then show ?thesis
    using cu(1) xs c1
    by (simp add: copy_coveragePoints_def alloc_def set_vehicle_Some read_uav_set_vehicle)
qed

lemma advance_or_move_sim:
  assumes "read_uav h uav = Some v" and "read_uav h uu = Some w"
    and "get_position h t = Some tp"
  shows "\<exists>h'. advance_or_move_store h uav uu t dt = Some h'
              \<and> read_uav h' uu = Some (advance_or_move v w tp dt)"
proof -
  from assms(1) obtain cu where cu: "get_vehicle h uav = Some cu" "read_cell h cu = Some v"
    by (rule read_uavE)
  from assms(2) obtain c where c: "get_vehicle h uu = Some c" "read_cell h c = Some w"
    by (rule read_uavE)
  have pos: "get_position h (c_position cu) = Some (position v)"
    using read_cell_refs(1) [OF cu(2)] .
  show ?thesis
  proof (cases "calculateDistance (position v) tp < 20")
    case True
    have "read_cell h (c\<lparr> c_currentWaypointIndex := Some (cell_index c + 1) \<rparr>)
        = Some (w\<lparr> currentWaypointIndex := Some (current_index w + 1) \<rparr>)"
      using read_cell_update_scalars(1) [OF c(2)] read_cell_scalars(12) [OF c(2)] by simp
    then show ?thesis
      using True cu(1) pos assms(3) c(1)
      by (simp add: advance_or_move_store_def advance_or_move_def set_vehicle_Some
          read_uav_set_vehicle)
  next
    case False
    let ?dir = "calculateBearing (position v) tp"
    let ?c1 = "c\<lparr> c_direction := ?dir \<rparr>"
    let ?h1 = "h[uu := Vehicle ?c1]"
    let ?np = "calculateNewPosition (position v) ?dir (num_or (Some (speed w)) 15) dt"
    let ?h2 = "?h1 @ [Position ?np]"
    have v1: "get_vehicle ?h1 uu = Some ?c1" using c(1) by (simp add: get_set_vehicle)
    have "read_cell h ?c1 = Some (w\<lparr> direction := ?dir \<rparr>)"
      using read_cell_update_scalars(2) [OF c(2)] .
    then have "read_cell ?h1 ?c1 = Some (w\<lparr> direction := ?dir \<rparr>)"
      using c(1) by (simp add: read_cell_set_vehicle)
    then have r2: "read_cell ?h2 ?c1 = Some (w\<lparr> direction := ?dir \<rparr>)"
      by (rule read_cell_grow)
    have "get_position ?h2 (length h) = Some ?np"
      using get_new(1) [of ?h1 ?np] by simp
    then have r3: "read_cell ?h2 (?c1\<lparr> c_position := length h \<rparr>)
        = Some (w\<lparr> direction := ?dir, position := ?np \<rparr>)"
      using read_cell_update_refs(1) [OF r2] by simp
    have v2: "get_vehicle ?h2 uu = Some ?c1" using v1 by (simp add: get_grow)
    show ?thesis
      using False cu(1) pos assms(3) c(1) v1 v2 r3 read_cell_scalars(2) [OF c(2)]
      by (simp add: advance_or_move_store_def advance_or_move_def set_vehicle_Some
          read_uav_set_vehicle alloc_def Let_def)
  qed
qed

lemma read_positions_drop:
  "read_positions h xs = Some ps \<Longrightarrow> read_positions h (drop n xs) = Some (drop n ps)"
proof (induction xs arbitrary: ps n)
  case Nil
  then show ?case by simp
next
  case (Cons x xs)
  then show ?case by (cases n) (auto split: Option.bind_splits)
qed

lemma read_positions_length:
  "read_positions h xs = Some ps \<Longrightarrow> length ps = length xs"
  by (induction xs arbitrary: ps) (auto split: Option.bind_splits)

lemma read_positions_slice_last:
  assumes "read_positions h xs = Some ps"
  shows "read_positions h (slice_last n xs) = Some (slice_last n ps)"
  using read_positions_drop [OF assms] read_positions_length [OF assms]
  by (simp add: slice_last_def)

lemma push_flightPath_sim:
  assumes "read_uav h uav = Some v" and "read_uav h uu = Some w"
  shows "\<exists>h'. push_flightPath_store h uav uu = Some h'
              \<and> read_uav h' uu = Some (push_flightPath v w)"
proof -
  from assms(1) obtain cu where cu: "get_vehicle h uav = Some cu" "read_cell h cu = Some v"
    by (rule read_uavE)
  from assms(2) obtain c where c: "get_vehicle h uu = Some c" "read_cell h c = Some w"
    by (rule read_uavE)
  from refs_or_empty_path [OF read_cell_refs(3) [OF cu(2)]] obtain old where
    old: "refs_or_empty h (c_flightPath cu) = Some old"
    and ps: "read_positions h old = Some (list_or_empty (flightPath v))"
    by blast
  let ?fp = "list_or_empty (flightPath v) @ [position w]"
  let ?cur = "old @ [c_position c]"
  let ?h1 = "h @ [Refs ?cur]"
  let ?c1 = "c\<lparr> c_flightPath := Some (length h) \<rparr>"
  let ?h2 = "?h1[uu := Vehicle ?c1]"
  have all: "read_positions h ?cur = Some ?fp"
    using ps read_cell_refs(1) [OF c(2)] by (simp add: read_positions_append)
  then have all1: "read_positions ?h1 ?cur = Some ?fp"
    by (simp add: read_positions_grow)
  have v1: "get_vehicle ?h1 uu = Some c" using c(1) by (simp add: get_grow)
  have "read_path ?h1 (length h) = Some ?fp"
    using all1 by (simp add: read_path_def get_new)
  then have r1: "read_cell ?h1 ?c1 = Some (w\<lparr> flightPath := Some ?fp \<rparr>)"
    using read_cell_update_refs(2) [OF read_cell_grow [OF c(2)]] by simp
  have step2: "set_vehicle ?h1 uu (\<lambda>c. c\<lparr> c_flightPath := Some (length h) \<rparr>) = Some ?h2"
    using v1 by (simp add: set_vehicle_Some)
  have cur: "get_refs ?h2 (length h) = Some ?cur"
    using v1 by (simp add: get_set_vehicle get_new)
  have v2: "get_vehicle ?h2 uu = Some ?c1" using v1 by (simp add: get_set_vehicle)
  have r2: "read_cell ?h2 ?c1 = Some (w\<lparr> flightPath := Some ?fp \<rparr>)"
    using v1 r1 by (simp add: read_cell_set_vehicle)
  have len: "length ?fp = length ?cur"
    using read_positions_length [OF all] .
  show ?thesis
  proof (cases "length ?cur > 100")
    case False
    then show ?thesis
      using cu(1) c(1) old step2 cur v1 r1 len
      by (simp add: push_flightPath_store_def push_flightPath_def alloc_def Let_def
          read_uav_set_vehicle)
  next
    case True
    let ?h3 = "?h2 @ [Refs (slice_last 100 ?cur)]"
    have "read_positions ?h2 ?cur = Some ?fp"
      using v1 all1 by (simp add: read_positions_set_vehicle)
    then have "read_positions ?h2 (slice_last 100 ?cur) = Some (slice_last 100 ?fp)"
      by (rule read_positions_slice_last)
    then have "read_positions ?h3 (slice_last 100 ?cur) = Some (slice_last 100 ?fp)"
      by (simp add: read_positions_grow)
    moreover have "get_refs ?h3 (length ?h2) = Some (slice_last 100 ?cur)"
      by (rule get_new(2))
    ultimately have "read_path ?h3 (length ?h2) = Some (slice_last 100 ?fp)"
      by (simp add: read_path_def)
    then have r3: "read_cell ?h3 (?c1\<lparr> c_flightPath := Some (length ?h2) \<rparr>)
        = Some (w\<lparr> flightPath := Some (slice_last 100 ?fp) \<rparr>)"
      using read_cell_update_refs(2) [OF read_cell_grow [OF r2]] by simp
    have v3: "get_vehicle ?h3 uu = Some ?c1" using v2 by (simp add: get_grow)
    show ?thesis
      using True cu(1) c(1) old step2 cur v3 r3 len
      by (simp add: push_flightPath_store_def push_flightPath_def alloc_def Let_def
          read_uav_set_vehicle set_vehicle_Some)
  qed
qed

lemma track_altitude_sim:
  assumes "read_uav h uav = Some v" and "read_uav h uu = Some w"
  shows "\<exists>h'. track_altitude_store h uav uu = Some h'
              \<and> read_uav h' uu = Some (track_altitude v w)"
proof -
  from assms(1) obtain cu where cu: "get_vehicle h uav = Some cu" "read_cell h cu = Some v"
    by (rule read_uavE)
  from assms(2) obtain c where c: "get_vehicle h uu = Some c" "read_cell h c = Some w"
    by (rule read_uavE)
  let ?n = "next_counter (altitudeHistorySampleCounter v)"
  let ?c1 = "c\<lparr> c_altitudeHistorySampleCounter := Some ?n \<rparr>"
  let ?w1 = "w\<lparr> altitudeHistorySampleCounter := Some ?n \<rparr>"
  let ?h1 = "h[uu := Vehicle ?c1]"
  have cnt: "c_altitudeHistorySampleCounter cu = altitudeHistorySampleCounter v"
    using read_cell_scalars(8) [OF cu(2)] .
  have step1: "set_vehicle h uu
      (\<lambda>c. c\<lparr> c_altitudeHistorySampleCounter :=
                Some (next_counter (c_altitudeHistorySampleCounter cu)) \<rparr>) = Some ?h1"
    using c(1) cnt by (simp add: set_vehicle_Some)
  have v1: "get_vehicle ?h1 uu = Some ?c1" using c(1) by (simp add: get_set_vehicle)
  have r1: "read_cell ?h1 ?c1 = Some ?w1"
    using c(1) read_cell_update_scalars(7) [OF c(2)] by (simp add: read_cell_set_vehicle)
  have old: "nums_or_empty h1 (c_altitudeHistory cu) = Some (list_or_empty (altitudeHistory v))"
    if "h1 = ?h1" for h1
    using nums_or_empty_history [OF read_cell_refs(5) [OF cu(2)]] c(1) that
    by (cases "c_altitudeHistory cu") (simp_all add: nums_or_empty_def get_set_vehicle)
  have alt: "c_altitude ?c1 = altitude w" using read_cell_scalars(3) [OF c(2)] by simp
  show ?thesis
  proof (cases "?n mod 5 = 0")
    case True
    let ?hist = "list_or_empty (altitudeHistory v) @ [altitude w]"
    let ?h2 = "?h1 @ [Nums ?hist]"
    let ?c2 = "?c1\<lparr> c_altitudeHistory := Some (length ?h1) \<rparr>"
    let ?h3 = "?h2[uu := Vehicle ?c2]"
    have v2: "get_vehicle ?h2 uu = Some ?c1" using v1 by (simp add: get_grow)
    have g2: "get_nums ?h2 (length ?h1) = Some ?hist" by (rule get_new(3))
    have r2: "read_cell ?h2 ?c2 = Some (?w1\<lparr> altitudeHistory := Some ?hist \<rparr>)"
      using read_cell_update_refs(4) [OF read_cell_grow [OF r1] g2] .
    have step3: "set_vehicle ?h2 uu (\<lambda>c. c\<lparr> c_altitudeHistory := Some (length ?h1) \<rparr>) = Some ?h3"
      using v2 by (simp add: set_vehicle_Some)
    have g3: "get_nums ?h3 (length ?h1) = Some ?hist"
      using v2 g2 by (simp add: get_set_vehicle)
    have v3: "get_vehicle ?h3 uu = Some ?c2" using v2 by (simp add: get_set_vehicle)
    have r3: "read_cell ?h3 ?c2 = Some (?w1\<lparr> altitudeHistory := Some ?hist \<rparr>)"
      using v2 r2 by (simp add: read_cell_set_vehicle)
    show ?thesis
    proof (cases "length ?hist > 8")
      case False
      have "read_uav ?h3 uu = Some (track_altitude v w)"
        using True False v3 r3 by (simp add: read_uav_def track_altitude_def Let_def)
      moreover have "track_altitude_store h uav uu = Some ?h3"
        using True False cu(1) step1 v1 old [OF refl] alt step3 g3 cnt
        by (simp add: track_altitude_store_def alloc_def Let_def)
      ultimately show ?thesis by blast
    next
      case long: True
      let ?h4 = "?h3 @ [Nums (slice_last 8 ?hist)]"
      let ?c4 = "?c2\<lparr> c_altitudeHistory := Some (length ?h3) \<rparr>"
      let ?h5 = "?h4[uu := Vehicle ?c4]"
      have v4: "get_vehicle ?h4 uu = Some ?c2" using v3 by (simp add: get_grow)
      have g4: "get_nums ?h4 (length ?h3) = Some (slice_last 8 ?hist)" by (rule get_new(3))
      have r4: "read_cell ?h4 ?c4
          = Some (?w1\<lparr> altitudeHistory := Some ?hist, altitudeHistory := Some (slice_last 8 ?hist) \<rparr>)"
        using read_cell_update_refs(4) [OF read_cell_grow [OF r3] g4] .
      have step5: "set_vehicle ?h4 uu (\<lambda>c. c\<lparr> c_altitudeHistory := Some (length ?h3) \<rparr>) = Some ?h5"
        using v4 by (simp add: set_vehicle_Some)
      have "read_uav ?h5 uu = Some (track_altitude v w)"
        using True long v4 r4 by (simp add: read_uav_set_vehicle track_altitude_def Let_def)
      moreover have "track_altitude_store h uav uu = Some ?h5"
        using True long cu(1) step1 v1 old [OF refl] alt step3 g3 cnt step5
        by (simp add: track_altitude_store_def alloc_def Let_def)
      ultimately show ?thesis by blast
    qed
  next
    case False
    show ?thesis
    proof (cases "c_altitudeHistory cu")
      case None
      then have hv: "altitudeHistory v = None"
        using read_cell_refs(5) [OF cu(2)] by (simp add: read_opt_def)
      let ?h2 = "?h1 @ [Nums []]"
      let ?c2 = "?c1\<lparr> c_altitudeHistory := Some (length ?h1) \<rparr>"
      let ?h3 = "?h2[uu := Vehicle ?c2]"
      have v2: "get_vehicle ?h2 uu = Some ?c1" using v1 by (simp add: get_grow)
      have g2: "get_nums ?h2 (length ?h1) = Some []" by (rule get_new(3))
      have r2: "read_cell ?h2 ?c2 = Some (?w1\<lparr> altitudeHistory := Some [] \<rparr>)"
        using read_cell_update_refs(4) [OF read_cell_grow [OF r1] g2] .
      have step3: "set_vehicle ?h2 uu (\<lambda>c. c\<lparr> c_altitudeHistory := Some (length ?h1) \<rparr>) = Some ?h3"
        using v2 by (simp add: set_vehicle_Some)
      have "read_uav ?h3 uu = Some (track_altitude v w)"
        using False hv v2 r2
        by (simp add: read_uav_set_vehicle track_altitude_def Let_def list_or_empty_def)
      moreover have "track_altitude_store h uav uu = Some ?h3"
        using False None cu(1) step1 v1 step3 cnt
        by (simp add: track_altitude_store_def alloc_def Let_def)
      ultimately show ?thesis by blast
    next
      case (Some a)
      then obtain ns where hv: "altitudeHistory v = Some ns" and ga: "get_nums h a = Some ns"
        using read_cell_refs(5) [OF cu(2)]
        by (cases "altitudeHistory v") (auto simp add: read_opt_def)
      let ?c2 = "?c1\<lparr> c_altitudeHistory := Some a \<rparr>"
      let ?h3 = "?h1[uu := Vehicle ?c2]"
      have g1: "get_nums ?h1 a = Some ns" using c(1) ga by (simp add: get_set_vehicle)
      have r2: "read_cell ?h1 ?c2 = Some (?w1\<lparr> altitudeHistory := Some ns \<rparr>)"
        using read_cell_update_refs(4) [OF r1 g1] .
      have step3: "set_vehicle ?h1 uu (\<lambda>c. c\<lparr> c_altitudeHistory := Some a \<rparr>) = Some ?h3"
        using v1 by (simp add: set_vehicle_Some)
      have "read_uav ?h3 uu = Some (track_altitude v w)"
        using False hv c(1) r2
        by (simp add: read_uav_set_vehicle read_cell_set_vehicle track_altitude_def Let_def
            list_or_empty_def)
      moreover have "track_altitude_store h uav uu = Some ?h3"
        using False Some cu(1) step1 v1 step3 cnt
        by (simp add: track_altitude_store_def alloc_def Let_def)
      ultimately show ?thesis by blast
    qed
  qed
qed

lemma read_path_push_ref:
  "get_refs h a \<noteq> None \<Longrightarrow> b \<noteq> a \<Longrightarrow> read_path (h[a := Refs ys]) b = read_path h b"
  by (simp add: read_path_def get_push_ref read_positions_push_ref)

lemma read_cell_push_ref:
  assumes "read_cell h c = Some w"
    and "c_coveragePoints c = Some a" and "c_flightPath c \<noteq> Some a"
    and "get_refs h a \<noteq> None" and "read_samples h ys = Some cs"
  shows "read_cell (h[a := Refs ys]) c = Some (w\<lparr> coveragePoints := Some cs \<rparr>)"
proof -
  have fp: "read_opt (read_path (h[a := Refs ys])) (c_flightPath c)
      = read_opt (read_path h) (c_flightPath c)"
    using assms(3,4) by (cases "c_flightPath c") (simp_all add: read_opt_def read_path_push_ref)
  have sp: "read_opt (get_position (h[a := Refs ys])) (c_startPosition c)
      = read_opt (get_position h) (c_startPosition c)"
    using assms(4) by (cases "c_startPosition c") (simp_all add: read_opt_def get_push_ref)
  have ah: "read_opt (get_nums (h[a := Refs ys])) (c_altitudeHistory c)
      = read_opt (get_nums h) (c_altitudeHistory c)"
    using assms(4) by (cases "c_altitudeHistory c") (simp_all add: read_opt_def get_push_ref)
  have cp: "read_opt (read_coverage (h[a := Refs ys])) (c_coveragePoints c) = Some (Some cs)"
    using assms(2,4,5)
    by (simp add: read_opt_def read_coverage_def get_push_ref read_samples_push_ref)
  show ?thesis
    using assms(1,4)
    by (auto simp add: read_cell_def fp sp ah cp get_push_ref split: Option.bind_splits)
qed

lemma read_samples_last:
  "read_samples h xs = Some cs \<Longrightarrow> xs \<noteq> []
     \<Longrightarrow> cs \<noteq> [] \<and> read_sample h (last xs) = Some (last cs)"
proof (induction xs arbitrary: cs)
  case Nil
  then show ?case by simp
next
  case (Cons x xs)
  then show ?case by (cases xs) (auto split: Option.bind_splits)
qed

lemma read_samples_Nil: "read_samples h xs = Some cs \<Longrightarrow> xs = [] \<longleftrightarrow> cs = []"
  by (cases xs) (auto split: Option.bind_splits)

lemma last_sample_position_sim:
  assumes "read_samples h xs = Some cs" and "xs \<noteq> []"
  shows "\<exists>lp. last_sample_position h xs = Some (Some lp)
              \<and> get_position h lp = Some (sample_position (last cs))"
proof -
  have rs: "read_sample h (last xs) = Some (last cs)"
    using read_samples_last [OF assms] by simp
  then obtain obj where obj: "lookup h (last xs) = Some obj"
    by (cases "lookup h (last xs)") (simp_all add: read_sample_def)
  show ?thesis
  proof (cases obj)
    case (Position q)
    then have "last cs = Legacy q" using rs obj by (simp add: read_sample_def)
    then show ?thesis
      using assms(2) obj Position by (simp add: last_sample_position_def get_position_def)
  next
    case (Coverage p a)
    then obtain q where "get_position h p = Some q" and "last cs = Sample q a"
      using rs obj by (cases "get_position h p") (auto simp add: read_sample_def)
    then show ?thesis
      using assms(2) obj Coverage by (simp add: last_sample_position_def)
  qed (use rs obj in \<open>simp_all add: read_sample_def\<close>)
qed

lemma push_ref_Some:
  "get_refs h a = Some xs \<Longrightarrow> push_ref h a x = Some (h[a := Refs (xs @ [x])])"
  by (auto simp add: push_ref_def get_refs_def split: option.splits hobj.splits)

lemma read_sample_new:
  "read_sample (h @ [Position p, Coverage (length h) alt]) (Suc (length h)) = Some (Sample p alt)"
  by (simp add: read_sample_def lookup_def get_position_def nth_append)

lemma track_coverage_sim:
  assumes "read_uav h uu = Some w" and "get_vehicle h uu = Some c"
    and "c_coveragePoints c = Some a" and "c_flightPath c \<noteq> Some a"
  shows "\<exists>h'. track_coverage_store h uu = Some h'
              \<and> read_uav h' uu = Some (track_coverage w)"
proof -
  have rc: "read_cell h c = Some w" using assms(1,2) by (simp add: read_uav_def)
  have "read_opt (read_coverage h) (Some a) = Some (coveragePoints w)"
    using read_cell_refs(4) [OF rc] assms(3) by simp
  then obtain cs where cs: "coveragePoints w = Some cs" and ra: "read_coverage h a = Some cs"
    by (cases "coveragePoints w") (auto simp add: read_opt_def)
  then obtain xs where xs: "get_refs h a = Some xs" and rs: "read_samples h xs = Some cs"
    by (auto simp add: read_coverage_def split: Option.bind_splits)
  have pos: "get_position h (c_position c) = Some (position w)"
    using read_cell_refs(1) [OF rc] .
  note sc = read_cell_scalars(3,12) [OF rc]
  let ?spacing = "coverage_spacing (altitude w)"
  have should: "\<exists>lastPosition. last_sample_position h xs = Some lastPosition
      \<and> (case lastPosition of
             None \<Rightarrow> Some True
           | Some lp \<Rightarrow>
               do { l \<leftarrow> get_position h lp;
                    Some (calculateDistance (position w) l \<ge> ?spacing) })
          = Some (shouldAddCoveragePoint w)"
  proof (cases "xs = []")
    case True
    then have "cs = []" using read_samples_Nil [OF rs] by simp
    then show ?thesis
      using True cs
      by (simp add: last_sample_position_def shouldAddCoveragePoint_def list_or_empty_def)
  next
    case False
    then have ne: "cs \<noteq> []" using read_samples_Nil [OF rs] by simp
    from last_sample_position_sim [OF rs False] obtain lp where
      "last_sample_position h xs = Some (Some lp)"
      "get_position h lp = Some (sample_position (last cs))"
      by blast
    then show ?thesis
      using cs ne
      by (cases cs) (simp_all add: shouldAddCoveragePoint_def list_or_empty_def Let_def)
  qed
  then obtain lastPosition where
    lsp: "last_sample_position h xs = Some lastPosition"
    and sh: "(case lastPosition of
               None \<Rightarrow> Some True
             | Some lp \<Rightarrow>
                 do { l \<leftarrow> get_position h lp;
                      Some (calculateDistance (position w) l \<ge> ?spacing) })
             = Some (shouldAddCoveragePoint w)"
    by blast
  show ?thesis
  proof (cases "current_index w > 0 \<and> shouldAddCoveragePoint w")
    case False
    then show ?thesis
      using assms(1,2,3) xs lsp sh pos sc
      by (auto simp add: track_coverage_store_def track_coverage_def Let_def
          cong: option.case_cong)
  next
    case True
    let ?h2 = "h @ [Position (position w), Coverage (length h) (altitude w)]"
    let ?ys = "xs @ [Suc (length h)]"
    let ?h3 = "?h2[a := Refs ?ys]"
    have g2: "get_refs ?h2 a = Some xs"
      using xs by (simp add: get_grow)
    have v2: "get_vehicle ?h2 uu = Some c"
      using assms(2) by (simp add: get_grow)
    have rc2: "read_cell ?h2 c = Some w"
      by (intro read_cell_grow rc)
    have "read_samples ?h2 xs = Some cs"
      using rs by (simp add: read_samples_grow)
    then have rs2: "read_samples ?h2 ?ys = Some (cs @ [Sample (position w) (altitude w)])"
      by (simp add: read_samples_append read_sample_new)
    have rc3: "read_cell ?h3 c
        = Some (w\<lparr> coveragePoints := Some (cs @ [Sample (position w) (altitude w)]) \<rparr>)"
      using read_cell_push_ref [OF rc2 assms(3,4) _ rs2] g2 by simp
    have v3: "get_vehicle ?h3 uu = Some c"
      using v2 g2 by (simp add: get_push_ref)
    have "read_uav ?h3 uu = Some (track_coverage w)"
      using True v3 rc3 cs by (simp add: read_uav_def track_coverage_def list_or_empty_def)
    moreover have "track_coverage_store h uu = Some ?h3"
      using True assms(2,3) xs lsp sh pos sc push_ref_Some [OF g2, of "Suc (length h)"]
      by (simp add: track_coverage_store_def alloc_def Let_def cong: option.case_cong)
    ultimately show ?thesis by blast
  qed
qed

subsection \<open>Where the arrays of the new vehicle live\<close>

lemma set_vehicleD:
  "set_vehicle h a f = Some h' \<Longrightarrow> \<exists>c. get_vehicle h a = Some c \<and> h' = h[a := Vehicle (f c)]"
  by (auto simp add: set_vehicle_def get_vehicle_def split: option.splits hobj.splits)

lemma copy_coveragePoints_cp:
  "copy_coveragePoints h uav uu = Some h' \<Longrightarrow> cp_is (length h) uu h'"
  by (auto simp add: copy_coveragePoints_def alloc_def cp_is_def get_set_vehicle
      dest!: set_vehicleD split: Option.bind_splits)

lemma advance_or_move_store_cp:
  "advance_or_move_store h uav uu t dt = Some h' \<Longrightarrow> cp_is a uu h \<Longrightarrow> cp_is a uu h'"
  by (auto simp add: advance_or_move_store_def alloc_def cp_is_def get_set_vehicle get_grow
      Let_def dest!: set_vehicleD split: Option.bind_splits if_splits)

lemma push_flightPath_store_cp:
  "push_flightPath_store h uav uu = Some h' \<Longrightarrow> cp_is a uu h \<Longrightarrow> cp_apart a uu h'"
  by (auto simp add: push_flightPath_store_def alloc_def cp_is_def cp_apart_def get_set_vehicle
      get_grow Let_def dest!: set_vehicleD split: Option.bind_splits if_splits)

lemma track_altitude_store_cp:
  "track_altitude_store h uav uu = Some h' \<Longrightarrow> cp_apart a uu h \<Longrightarrow> cp_apart a uu h'"
  by (auto simp add: track_altitude_store_def alloc_def cp_apart_def get_set_vehicle
      get_grow Let_def dest!: set_vehicleD split: Option.bind_splits if_splits option.splits)

subsection \<open>The branches and the whole tick\<close>

lemma tick_inv2_D1: "tick_inv2 h0 uu h \<Longrightarrow> tick_inv h0 uu h"
  by (simp add: tick_inv2_def)

lemma read_uav_tick_inv:
  "tick_inv h0 uu h \<Longrightarrow> read_uav h0 a = Some v \<Longrightarrow> read_uav h a = Some v"
  by (auto simp add: tick_inv_def intro: read_uav_prefix)

lemma read_positions_nth:
  "read_positions h xs = Some ps \<Longrightarrow> i < length xs \<Longrightarrow> get_position h (xs ! i) = Some (ps ! i)"
proof (induction xs arbitrary: ps i)
  case Nil
  then show ?case by simp
next
  case (Cons x xs)
  then show ?case by (cases i) (auto split: Option.bind_splits)
qed

lemma read_area_bounds:
  assumes "read_area h a = Some r"
  shows "\<exists>ac wps. get_area h a = Some ac \<and> refs_or_empty h (c_bounds ac) = Some wps
           \<and> read_positions h wps = Some (list_or_empty (bounds r))"
proof -
  from assms obtain ac where ac: "get_area h a = Some ac"
    and b: "read_opt (read_path h) (c_bounds ac) = Some (bounds r)"
    by (auto simp add: read_area_def split: Option.bind_splits)
  from refs_or_empty_path [OF b] ac show ?thesis by blast
qed

lemma set_scalar_sim:
  assumes "read_uav h uu = Some w"
  shows "\<exists>h'. set_vehicle h uu (\<lambda>c. c\<lparr> c_battery := b \<rparr>) = Some h'
              \<and> read_uav h' uu = Some (w\<lparr> battery := b \<rparr>)"
    and "\<exists>h'. set_vehicle h uu (\<lambda>c. c\<lparr> c_status := s \<rparr>) = Some h'
              \<and> read_uav h' uu = Some (w\<lparr> status := s \<rparr>)"
    and "\<exists>h'. set_vehicle h uu (\<lambda>c. c\<lparr> c_speed := x \<rparr>) = Some h'
              \<and> read_uav h' uu = Some (w\<lparr> speed := x \<rparr>)"
proof -
  from assms obtain c where c: "get_vehicle h uu = Some c" "read_cell h c = Some w"
    by (rule read_uavE)
  show "\<exists>h'. set_vehicle h uu (\<lambda>c. c\<lparr> c_battery := b \<rparr>) = Some h'
              \<and> read_uav h' uu = Some (w\<lparr> battery := b \<rparr>)"
    using c(1) read_cell_update_scalars(3) [OF c(2)]
    by (simp add: set_vehicle_Some read_uav_set_vehicle)
  show "\<exists>h'. set_vehicle h uu (\<lambda>c. c\<lparr> c_status := s \<rparr>) = Some h'
              \<and> read_uav h' uu = Some (w\<lparr> status := s \<rparr>)"
    using c(1) read_cell_update_scalars(4) [OF c(2)]
    by (simp add: set_vehicle_Some read_uav_set_vehicle)
  show "\<exists>h'. set_vehicle h uu (\<lambda>c. c\<lparr> c_speed := x \<rparr>) = Some h'
              \<and> read_uav h' uu = Some (w\<lparr> speed := x \<rparr>)"
    using c(1) read_cell_update_scalars(5) [OF c(2)]
    by (simp add: set_vehicle_Some read_uav_set_vehicle)
qed

lemma searching_sim:
  assumes v: "read_uav h0 uav = Some v" and inv: "tick_inv h0 uu h"
    and w: "read_uav h uu = Some v" and r: "read_area h0 area = Some r"
  shows "\<exists>h'. searching_store h uav uu area dt = Some h'
              \<and> read_uav h' uu = Some (searching_tick v r dt)"
proof -
  let ?wps = "list_or_empty (bounds r)"
  let ?u1 = "init_or_ramp v dt"
  let ?u2 = "?u1\<lparr> coveragePoints := Some (list_or_empty (coveragePoints v)) \<rparr>"
  from read_area_bounds [OF r] obtain ac wps where
    ac0: "get_area h0 area = Some ac" and wps0: "refs_or_empty h0 (c_bounds ac) = Some wps"
    and ps0: "read_positions h0 wps = Some ?wps"
    by blast
  have len: "length wps = length ?wps" using read_positions_length [OF ps0] by simp
  from init_or_ramp_sim [OF read_uav_tick_inv [OF inv v] w] obtain h1 where
    s1: "init_or_ramp_store h uav uu dt = Some h1" and r1: "read_uav h1 uu = Some ?u1"
    by blast
  have inv1: "tick_inv h0 uu h1" using init_or_ramp_store_inv [OF s1 inv] .
  have pre1: "prefix h0 h1" using inv1 by (simp add: tick_inv_def)
  have ac: "get_area h1 area = Some ac" using get_area_prefix [OF pre1 ac0] .
  have wps: "refs_or_empty h1 (c_bounds ac) = Some wps"
    using refs_or_empty_prefix [OF pre1 wps0] .
  from copy_coveragePoints_sim [OF read_uav_tick_inv [OF inv1 v] r1] obtain h2 where
    s2: "copy_coveragePoints h1 uav uu = Some h2" and r2: "read_uav h2 uu = Some ?u2"
    by blast
  have inv2: "tick_inv2 h0 uu h2"
    using copy_coveragePoints_inv [OF s2 inv1] by (simp add: tick_inv2_def)
  have pre2: "prefix h0 h2" using inv2 by (simp add: tick_inv2_def tick_inv_def)
  have cp2: "cp_is (length h1) uu h2" using copy_coveragePoints_cp [OF s2] .
  from r2 obtain c2 where c2: "get_vehicle h2 uu = Some c2" "read_cell h2 c2 = Some ?u2"
    by (rule read_uavE)
  have idx2: "cell_index c2 = current_index ?u2" using read_cell_scalars(12) [OF c2(2)] .
  show ?thesis
  proof (cases "length ?wps > 0 \<and> current_index ?u2 < length ?wps")
    case False
    then show ?thesis
      using s1 ac wps s2 c2(1) idx2 len r2
      by (auto simp add: searching_store_def searching_tick_def Let_def)
  next
    case True
    let ?i = "current_index ?u2"
    let ?u3 = "advance_or_move v ?u2 (?wps ! ?i) dt"
    let ?u4 = "push_flightPath v ?u3"
    let ?u5 = "track_altitude v ?u4"
    let ?u6 = "track_coverage ?u5"
    let ?u7 = "?u6\<lparr> battery := max 0 (battery v - 0.1 * dt) \<rparr>"
    have t: "get_position h2 (wps ! ?i) = Some (?wps ! ?i)"
      using read_positions_nth [OF read_positions_prefix [OF pre2 ps0], of ?i] True len
      by simp
    from advance_or_move_sim [OF read_uav_tick_inv [OF tick_inv2_D1 [OF inv2] v] r2 t]
    obtain h3 where
      s3: "advance_or_move_store h2 uav uu (wps ! ?i) dt = Some h3"
      and r3: "read_uav h3 uu = Some ?u3"
      by blast
    have inv3: "tick_inv2 h0 uu h3" using advance_or_move_store_inv [OF s3 inv2] .
    have cp3: "cp_is (length h1) uu h3" using advance_or_move_store_cp [OF s3 cp2] .
    from push_flightPath_sim [OF read_uav_tick_inv [OF tick_inv2_D1 [OF inv3] v] r3]
    obtain h4 where
      s4: "push_flightPath_store h3 uav uu = Some h4" and r4: "read_uav h4 uu = Some ?u4"
      by blast
    have inv4: "tick_inv2 h0 uu h4" using push_flightPath_store_inv [OF s4 inv3] .
    have cp4: "cp_apart (length h1) uu h4" using push_flightPath_store_cp [OF s4 cp3] .
    from track_altitude_sim [OF read_uav_tick_inv [OF tick_inv2_D1 [OF inv4] v] r4]
    obtain h5 where
      s5: "track_altitude_store h4 uav uu = Some h5" and r5: "read_uav h5 uu = Some ?u5"
      by blast
    have inv5: "tick_inv2 h0 uu h5" using track_altitude_store_inv [OF s5 inv4] .
    from track_altitude_store_cp [OF s5 cp4] obtain c5 where
      c5: "get_vehicle h5 uu = Some c5" "c_coveragePoints c5 = Some (length h1)"
        "c_flightPath c5 \<noteq> Some (length h1)"
      by (auto simp add: cp_apart_def)
    from track_coverage_sim [OF r5 c5] obtain h6 where
      s6: "track_coverage_store h5 uu = Some h6" and r6: "read_uav h6 uu = Some ?u6"
      by blast
    have inv6: "tick_inv h0 uu h6" using track_coverage_store_inv [OF s6 inv5] .
    from read_uav_tick_inv [OF inv6 v] obtain cu where
      cu: "get_vehicle h6 uav = Some cu" "read_cell h6 cu = Some v"
      by (rule read_uavE)
    have bat: "c_battery cu = battery v" using read_cell_scalars(4) [OF cu(2)] .
    from set_scalar_sim(1) [OF r6, of "max 0 (battery v - 0.1 * dt)"] obtain h7 where
      s7: "set_vehicle h6 uu (\<lambda>c. c\<lparr> c_battery := max 0 (battery v - 0.1 * dt) \<rparr>) = Some h7"
      and r7: "read_uav h7 uu = Some ?u7"
      by blast
    from r7 obtain c7 where c7: "get_vehicle h7 uu = Some c7" "read_cell h7 c7 = Some ?u7"
      by (rule read_uavE)
    have idx7: "cell_index c7 = current_index ?u7" using read_cell_scalars(12) [OF c7(2)] .
    from set_scalar_sim(2) [OF r7, of Returning] obtain h8 where
      s8: "set_vehicle h7 uu (\<lambda>c. c\<lparr> c_status := Returning \<rparr>) = Some h8"
      and r8: "read_uav h8 uu = Some (?u7\<lparr> status := Returning \<rparr>)"
      by blast
    have ne: "wps \<noteq> []" using True len by auto
    have run: "searching_store h uav uu area dt
        = (if current_index ?u7 \<ge> length ?wps then Some h8 else Some h7)"
      using True ne s1 ac wps s2 c2(1) idx2 len s3 s4 s5 s6 cu(1) bat s7 c7(1) idx7 s8
      by (simp add: searching_store_def)
    have val: "searching_tick v r dt
        = (if current_index ?u7 \<ge> length ?wps then ?u7\<lparr> status := Returning \<rparr> else ?u7)"
      using True by (simp add: searching_tick_def Let_def)
    show ?thesis
      unfolding run val using r7 r8 by simp
  qed
qed

lemma set_vehicle_sim:
  assumes "read_uav h uu = Some w"
    and "\<And>c. read_cell h c = Some w \<Longrightarrow> read_cell h (f c) = Some w'"
  shows "\<exists>h'. set_vehicle h uu f = Some h' \<and> read_uav h' uu = Some w'"
proof -
  from assms(1) obtain c where c: "get_vehicle h uu = Some c" "read_cell h c = Some w"
    by (rule read_uavE)
  show ?thesis
    using c(1) assms(2) [OF c(2)] by (simp add: set_vehicle_Some read_uav_set_vehicle)
qed

lemma returning_sim:
  assumes v: "read_uav h0 uav = Some v" and inv: "tick_inv h0 uu h"
    and w: "read_uav h uu = Some v"
  shows "\<exists>h'. returning_store h uav uu dt = Some h'
              \<and> read_uav h' uu = Some (returning_tick v dt)"
proof -
  from read_uav_tick_inv [OF inv v] obtain cu where
    cu: "get_vehicle h uav = Some cu" "read_cell h cu = Some v"
    by (rule read_uavE)
  note sc = read_cell_scalars [OF cu(2)]
  have pos: "get_position h (c_position cu) = Some (position v)"
    using read_cell_refs(1) [OF cu(2)] .
  have after: "\<exists>h'. (do { u' \<leftarrow> get_vehicle h1 uav;
                          set_vehicle h1 uu
                            (\<lambda>c. c\<lparr> c_battery := max 0 (c_battery u' - 0.08 * dt) \<rparr>) })
                    = Some h'
                 \<and> read_uav h' uu = Some (u1\<lparr> battery := max 0 (battery v - 0.08 * dt) \<rparr>)"
    if "tick_inv h0 uu h1" and "read_uav h1 uu = Some u1" for h1 u1
  proof -
    from read_uav_tick_inv [OF that(1) v] obtain cu' where
      cu': "get_vehicle h1 uav = Some cu'" "read_cell h1 cu' = Some v"
      by (rule read_uavE)
    show ?thesis
      using cu'(1) read_cell_scalars(4) [OF cu'(2)]
        set_scalar_sim(1) [OF that(2), of "max 0 (battery v - 0.08 * dt)"]
      by simp
  qed
  show ?thesis
  proof (cases "c_startPosition cu")
    case None
    then have sv: "startPosition v = None"
      using read_cell_refs(2) [OF cu(2)] by (simp add: read_opt_def)
    have "\<exists>h'. set_vehicle h uu (\<lambda>c. c\<lparr> c_status := Idle, c_speed := 0 \<rparr>) = Some h'
        \<and> read_uav h' uu = Some (v\<lparr> status := Idle, speed := 0 \<rparr>)"
      by (rule set_vehicle_sim [OF w])
        (simp add: read_cell_update_scalars(4) read_cell_update_scalars(5))
    then show ?thesis
      using cu(1) None sv by (simp add: returning_store_def returning_tick_def)
  next
    case (Some sa)
    then obtain start where sv: "startPosition v = Some start"
      and gs: "get_position h sa = Some start"
      using read_cell_refs(2) [OF cu(2)]
      by (cases "startPosition v") (auto simp add: read_opt_def)
    show ?thesis
    proof (cases "calculateDistance (position v) start < 20")
      case True
      let ?u1 = "v\<lparr> status := Idle, speed := 0, altitude := 0, position := start \<rparr>"
      have "\<exists>h1. set_vehicle h uu
            (\<lambda>c. c\<lparr> c_status := Idle, c_speed := 0, c_altitude := 0, c_position := sa \<rparr>)
            = Some h1 \<and> read_uav h1 uu = Some ?u1"
        by (rule set_vehicle_sim [OF w])
          (simp add: read_cell_update_scalars(4) read_cell_update_scalars(5)
            read_cell_update_scalars(6) read_cell_update_refs(1) gs)
      then obtain h1 where
        s1: "set_vehicle h uu
            (\<lambda>c. c\<lparr> c_status := Idle, c_speed := 0, c_altitude := 0, c_position := sa \<rparr>)
            = Some h1" and r1: "read_uav h1 uu = Some ?u1"
        by blast
      have inv1: "tick_inv h0 uu h1" using tick_inv_set_vehicle [OF s1 inv] .
      from after [OF inv1 r1] show ?thesis
        using True cu(1) Some sv pos gs s1
        by (simp add: returning_store_def returning_tick_def Let_def)
    next
      case False
      let ?dir = "calculateBearing (position v) start"
      let ?spd = "num_or (targetSpeed v) 50 / 3.6 * 1.5"
      let ?alt = "num_or (Some (altitude v)) (num_or (targetAltitude v) 80)"
      let ?u2 = "v\<lparr> direction := ?dir, speed := ?spd, altitude := ?alt \<rparr>"
      let ?np = "calculateNewPosition (position v) ?dir ?spd dt"
      let ?u3 = "?u2\<lparr> position := ?np \<rparr>"
      let ?f2 = "\<lambda>c. c\<lparr> c_direction := ?dir, c_speed := ?spd, c_altitude := ?alt \<rparr>"
      have "\<exists>h2. set_vehicle h uu ?f2 = Some h2 \<and> read_uav h2 uu = Some ?u2"
        by (rule set_vehicle_sim [OF w])
          (simp add: read_cell_update_scalars(2) read_cell_update_scalars(5)
            read_cell_update_scalars(6))
      then obtain h2 where
        s2: "set_vehicle h uu ?f2 = Some h2" and r2: "read_uav h2 uu = Some ?u2"
        by blast
      have inv2: "tick_inv h0 uu h2" using tick_inv_set_vehicle [OF s2 inv] .
      from r2 obtain c2 where c2: "get_vehicle h2 uu = Some c2" "read_cell h2 c2 = Some ?u2"
        by (rule read_uavE)
      have d2: "c_direction c2 = ?dir" "c_speed c2 = ?spd"
        using read_cell_scalars(11) [OF c2(2)] read_cell_scalars(2) [OF c2(2)] by simp_all
      let ?h3 = "h2 @ [Position ?np]"
      have r3: "read_uav ?h3 uu = Some ?u2" using read_uav_grow [OF r2] .
      have "\<exists>h4. set_vehicle ?h3 uu (\<lambda>c. c\<lparr> c_position := length h2 \<rparr>) = Some h4
          \<and> read_uav h4 uu = Some ?u3"
        by (rule set_vehicle_sim [OF r3]) (simp add: read_cell_update_refs(1) get_new)
      then obtain h4 where
        s4: "set_vehicle ?h3 uu (\<lambda>c. c\<lparr> c_position := length h2 \<rparr>) = Some h4"
        and r4: "read_uav h4 uu = Some ?u3"
        by blast
      have inv4: "tick_inv h0 uu h4"
        using tick_inv_set_vehicle [OF s4 tick_inv_snoc [OF inv2]] .
      from push_flightPath_sim [OF read_uav_tick_inv [OF inv4 v] r4] obtain h5 where
        s5: "push_flightPath_store h4 uav uu = Some h5"
        and r5: "read_uav h5 uu = Some (push_flightPath v ?u3)"
        by blast
      have inv5: "tick_inv h0 uu h5" using push_flightPath_store_frame [OF s5 inv4] .
      from track_altitude_sim [OF read_uav_tick_inv [OF inv5 v] r5] obtain h6 where
        s6: "track_altitude_store h5 uav uu = Some h6"
        and r6: "read_uav h6 uu = Some (track_altitude v (push_flightPath v ?u3))"
        by blast
      have inv6: "tick_inv h0 uu h6" using track_altitude_store_frame [OF s6 inv5] .
      from after [OF inv6 r6] show ?thesis
        using False cu(1) Some sv pos gs sc(3,5,6) s2 c2(1) s4 s5 s6
        by (simp add: returning_store_def returning_tick_def Let_def alloc_def d2)
    qed
  qed
qed

text \<open>
  The whole tick: the vehicle is copied to the first new address, and the branch taken
  on the store is the branch taken on values.
\<close>

theorem updateUAVState_store_refines:
  assumes v: "read_uav h uav = Some v"
    and r: "read_opt (read_area h) searchArea = Some r"
  shows "\<exists>h'. updateUAVState_store h uav searchArea deltaTime = Some (h', length h)
              \<and> read_uav h' (length h) = Some (updateUAVState v r deltaTime)"
proof -
  from v obtain cu where cu: "get_vehicle h uav = Some cu" "read_cell h cu = Some v"
    by (rule read_uavE)
  note sc = read_cell_scalars [OF cu(2)]
  let ?h0 = "h @ [Vehicle cu]"
  let ?uu = "length h"
  have inv: "tick_inv h ?uu ?h0" by (simp add: tick_inv_def)
  have w: "read_uav ?h0 ?uu = Some v"
    using read_cell_grow [OF cu(2)] by (simp add: read_uav_def get_new)
  have start: "updateUAVState_store h uav searchArea deltaTime
      = (if \<not> isOnline v \<or> status v = Offline then Some (?h0, ?uu)
         else if \<not> isMock v then Some (?h0, ?uu)
         else if status v = Searching \<and> searchArea \<noteq> None
           then (case searchArea of
                   Some area \<Rightarrow>
                     do { h1 \<leftarrow> searching_store ?h0 uav ?uu area deltaTime;
                          Some (h1, ?uu) }
                 | None \<Rightarrow> Some (?h0, ?uu))
         else if status v = Returning
           then do { h1 \<leftarrow> returning_store ?h0 uav ?uu deltaTime; Some (h1, ?uu) }
         else if status v = Idle
           then do { h1 \<leftarrow> set_vehicle ?h0 ?uu (\<lambda>c. c\<lparr> c_speed := 0 \<rparr>);
                     u' \<leftarrow> get_vehicle h1 uav;
                     h2 \<leftarrow> set_vehicle h1 ?uu
                             (\<lambda>c. c\<lparr> c_battery := max 0 (c_battery u' - 0.01 * deltaTime) \<rparr>);
                     Some (h2, ?uu) }
         else Some (?h0, ?uu))"
    using cu(1) sc(1,9,10) by (simp add: updateUAVState_store_def alloc_def)
  have rn: "r = None \<longleftrightarrow> searchArea = None"
    using r by (cases searchArea) (auto simp add: read_opt_def)
  consider (guard) "\<not> isOnline v \<or> status v = Offline \<or> \<not> isMock v"
    | (searching) area where "isOnline v" "status v \<noteq> Offline" "isMock v"
        "status v = Searching" "searchArea = Some area"
    | (returning) "isOnline v" "isMock v" "status v = Returning"
    | (idle) "isOnline v" "isMock v" "status v = Idle"
    | (other) "isOnline v" "status v \<noteq> Offline" "isMock v"
        "\<not> (status v = Searching \<and> searchArea \<noteq> None)" "status v \<noteq> Returning"
        "status v \<noteq> Idle"
    by (cases searchArea) auto
  then show ?thesis
  proof cases
    case guard
    then show ?thesis unfolding start using w by (auto simp add: updateUAVState_def)
  next
    case (searching area)
    then obtain ra where ra: "r = Some ra" "read_area h area = Some ra"
      using r by (cases r) (auto simp add: read_opt_def)
    from searching_sim [OF v inv w ra(2)] obtain h1 where
      "searching_store ?h0 uav ?uu area deltaTime = Some h1"
      "read_uav h1 ?uu = Some (searching_tick v ra deltaTime)"
      by blast
    then show ?thesis
      unfolding start using searching ra(1) by (simp add: updateUAVState_def)
  next
    case returning
    from returning_sim [OF v inv w] obtain h1 where
      "returning_store ?h0 uav ?uu deltaTime = Some h1"
      "read_uav h1 ?uu = Some (returning_tick v deltaTime)"
      by blast
    then show ?thesis
      unfolding start using returning by (simp add: updateUAVState_def)
  next
    case idle
    from set_scalar_sim(3) [OF w, of 0] obtain h1 where
      s1: "set_vehicle ?h0 ?uu (\<lambda>c. c\<lparr> c_speed := 0 \<rparr>) = Some h1"
      and r1: "read_uav h1 ?uu = Some (v\<lparr> speed := 0 \<rparr>)"
      by blast
    have inv1: "tick_inv h ?uu h1" using tick_inv_set_vehicle [OF s1 inv] .
    from read_uav_tick_inv [OF inv1 v] obtain cu' where
      cu': "get_vehicle h1 uav = Some cu'" "read_cell h1 cu' = Some v"
      by (rule read_uavE)
    from set_scalar_sim(1) [OF r1, of "max 0 (battery v - 0.01 * deltaTime)"] obtain h2 where
      "set_vehicle h1 ?uu (\<lambda>c. c\<lparr> c_battery := max 0 (battery v - 0.01 * deltaTime) \<rparr>)
         = Some h2"
      "read_uav h2 ?uu = Some (v\<lparr> speed := 0, battery := max 0 (battery v - 0.01 * deltaTime) \<rparr>)"
      by blast
    then show ?thesis
      unfolding start using idle s1 cu'(1) read_cell_scalars(4) [OF cu'(2)]
      by (simp add: updateUAVState_def)
  next
    case other
    then show ?thesis unfolding start using w rn by (auto simp add: updateUAVState_def)
  qed
qed

section \<open>The route is not mutated\<close>

lemma read_hover: "read_area hover_store 9 = Some hover_route"
  by (simp add: read_area_def read_opt_def read_path_def hover_store_def hover_route_def
      route_of_def get_area_def get_refs_def get_position_def lookup_def)

lemma read_fresh: "read_uav hover_store 3 = Some fresh_uav"
  by (simp add: read_uav_def read_cell_def read_opt_def read_path_def read_coverage_def
      get_vehicle_def get_position_def get_refs_def get_nums_def lookup_def
      hover_store_def fresh_cell_def fresh_uav_def mock_uav_def)

text \<open>
  Claim C10. Take any store in which the vehicle and the route read back as values.
  The tick returns; every object of the store it started from is as it was (the old
  store is a prefix of the new one, and the returned vehicle is the new object at the
  first new address); so the route reads the same after the tick as before: same
  bounds, status and assigned vehicle.
\<close>

theorem route_not_mutated:
  assumes "read_uav h uav = Some v" and "read_area h area = Some route"
  shows "\<exists>h'. updateUAVState_store h uav (Some area) deltaTime = Some (h', length h)
              \<and> prefix h h'
              \<and> read_area h' area = Some route"
proof -
  have "read_opt (read_area h) (Some area) = Some (Some route)"
    using assms(2) by (simp add: read_opt_def)
  from updateUAVState_store_refines [OF assms(1) this] obtain h' where
    run: "updateUAVState_store h uav (Some area) deltaTime = Some (h', length h)"
    by blast
  have "prefix h h'" using updateUAVState_store_frame [OF run] by (simp add: tick_inv_def)
  then show ?thesis using run read_area_prefix [OF _ assms(2)] by blast
qed

theorem route_not_mutated_witness:
  "read_uav hover_store 3 = Some fresh_uav
   \<and> read_area hover_store 9 = Some hover_route
   \<and> (\<exists>h'. updateUAVState_store hover_store 3 (Some 9) 1 = Some (h', length hover_store)
             \<and> prefix hover_store h'
             \<and> read_area h' 9 = Some hover_route)"
  using route_not_mutated [OF read_fresh read_hover, of 1] read_fresh read_hover by simp

text \<open>The tick of the witness, computed: the store it returns.\<close>

lemma hover_tick:
  "updateUAVState_store hover_store 3 (Some 9) 1 = Some (hover_store_after, 10)"
  by (simp add: store_defs hover_store_after_def hover_store_def fresh_cell_def
      calculateDistance_same num_or_def next_counter_def coverage_spacing_def
      getCoverageRadius_def Let_def)

text \<open>
  The same holds for any tick that returns, on any store and with or without a route:
  it leaves the old store as a prefix of the new one.
\<close>

lemma returned_tick_frame:
  assumes "updateUAVState_store h uav searchArea deltaTime = Some (h', updatedUAV)"
    and "read_area h area = Some route"
  shows "read_area h' area = Some route \<and> prefix h h' \<and> length h \<le> updatedUAV"
  using updateUAVState_store_frame [OF assms(1)] read_area_prefix [OF _ assms(2), of h']
  by (simp add: tick_inv_def)

end
